theory Spec2Isabelle
  imports Complex_Main
begin

section \<open>Python values shared by the models\<close>

text \<open>
  The exceptions the modelled code can raise. A raise is a value: \<open>Inl e\<close> of a sum, or
  \<open>Some e\<close> beside the object as the raise left it.
\<close>

datatype py_error = ValueError | IndexError | ZeroDivisionError | TypeError

text \<open>
  Subscripts of a Python list and of a one-dimensional numpy array of length \<open>len\<close>: the
  subscripts from 0 up to \<open>len - 1\<close> name the positions themselves, those from \<open>- len\<close> up
  to \<open>- 1\<close> count back from the end, and every other subscript raises IndexError.
\<close>

definition py_index :: "nat \<Rightarrow> int \<Rightarrow> nat option" where
  "py_index len i =
     (if 0 \<le> i \<and> i < int len then Some (nat i)
      else if - int len \<le> i \<and> i < 0 then Some (nat (int len + i))
      else None)"

definition py_getitem :: "'a list \<Rightarrow> int \<Rightarrow> py_error + 'a" where
  "py_getitem xs i =
     (case py_index (length xs) i of None \<Rightarrow> Inl IndexError | Some j \<Rightarrow> Inr (xs ! j))"

definition py_setitem :: "'a list \<Rightarrow> int \<Rightarrow> 'a \<Rightarrow> py_error + 'a list" where
  "py_setitem xs i v =
     (case py_index (length xs) i of None \<Rightarrow> Inl IndexError | Some j \<Rightarrow> Inr (xs[j := v]))"

section \<open>environments/move_to_goal/move_to_goal.py\<close>

text \<open>
  The fields of \<^verbatim>\<open>MoveToGoal\<close>. The dictionary \<^verbatim>\<open>positions\<close> has the two keys
  \<^verbatim>\<open>"player"\<close> and \<^verbatim>\<open>"goal"\<close>, both \<^verbatim>\<open>None\<close> until \<^verbatim>\<open>prepare_game\<close> runs. The image
  \<^verbatim>\<open>board\<close> is only displayed; of \<^verbatim>\<open>generate_board\<close> the model keeps the raises.
\<close>

type_synonym pos = "int \<times> int"

record move_to_goal =
  board_x :: int
  board_y :: int
  goal_reward :: int
  move_reward :: int
  game_end :: int
  steps_played :: int
  player :: "pos option"
  goal :: "pos option"

definition actions :: "string list" where
  "actions = [''up'', ''right'', ''down'', ''left'']"

text \<open>
  \<^verbatim>\<open>board[p] = colour\<close> on an array of shape \<open>(board_x, board_y, 3)\<close>: a pair indexes the
  first two axes, each within \<open>[-n, n)\<close>; \<^verbatim>\<open>None\<close> as an index adds an axis and raises
  nothing.
\<close>

fun board_index_ok :: "move_to_goal \<Rightarrow> pos option \<Rightarrow> bool" where
  "board_index_ok g None = True"
| "board_index_ok g (Some (x, y)) =
     (- board_x g \<le> x \<and> x < board_x g \<and> - board_y g \<le> y \<and> y < board_y g)"

definition generate_board :: "move_to_goal \<Rightarrow> py_error option" where
  "generate_board g =
     (if board_x g < 0 \<or> board_y g < 0 then Some ValueError
      else if \<not> board_index_ok g (player g) then Some IndexError
      else if \<not> board_index_ok g (goal g) then Some IndexError
      else None)"

text \<open>
  \<^verbatim>\<open>execute_player_action\<close> returns nothing; the model returns the raise, if any, and the
  object as the call left it.
\<close>

definition execute_player_action :: "move_to_goal \<Rightarrow> int \<Rightarrow> py_error option \<times> move_to_goal" where
  "execute_player_action g action =
     (case py_getitem actions action of
        Inl e \<Rightarrow> (Some e, g)
      | Inr name \<Rightarrow>
          (case player g of
             None \<Rightarrow> (Some TypeError, g)
           | Some (player_x, player_y) \<Rightarrow>
               (let moved =
                  (if name = ''up'' then
                     Inr (player_x, if player_y < board_y g - 1 then player_y + 1 else player_y)
                   else if name = ''right'' then
                     Inr (if player_x < board_x g - 1 then player_x + 1 else player_x, player_y)
                   else if name = ''down'' then
                     Inr (player_x, if player_y > 0 then player_y - 1 else player_y)
                   else if name = ''left'' then
                     Inr (if player_x > 0 then player_x - 1 else player_x, player_y)
                   else Inl ValueError)
                in case moved of
                     Inl e \<Rightarrow> (Some e, g)
                   | Inr p \<Rightarrow> (let g' = g\<lparr>player := Some p\<rparr> in (generate_board g', g')))))"

definition get_state :: "move_to_goal \<Rightarrow> pos option \<times> pos option" where
  "get_state g = (player g, goal g)"

definition step ::
  "move_to_goal \<Rightarrow> int \<Rightarrow> (py_error + ((pos option \<times> pos option) \<times> int \<times> bool)) \<times> move_to_goal" where
  "step g action =
     (case execute_player_action g action of
        (Some e, g1) \<Rightarrow> (Inl e, g1)
      | (None, g1) \<Rightarrow>
          (let (reward, done) =
                 (if player g1 = goal g1 then (goal_reward g1, True)
                  else (move_reward g1, False));
               g2 = g1\<lparr>steps_played := steps_played g1 + 1\<rparr>;
               done' = (if steps_played g2 \<ge> game_end g2 then True else done)
           in (Inr (get_state g2, reward, done'), g2)))"

section \<open>agents/policy_gradient_methods/environments.py\<close>

text \<open>
  An \<^verbatim>\<open>Episode\<close> holds three arrays of one length (its constructor asserts it);
  \<^verbatim>\<open>len(episode)\<close> is the length of \<^verbatim>\<open>states\<close>.
\<close>

record episode =
  states :: "real list list"
  rewards :: "real list"
  ep_actions :: "int list"

definition episode_len :: "episode \<Rightarrow> int" where
  "episode_len e = int (length (states e))"

record episodes_batch =
  episodes :: "episode list"
  max_size :: int
  current_size :: int

definition is_full :: "episodes_batch \<Rightarrow> bool" where
  "is_full b = (current_size b \<ge> max_size b)"

definition add_episode :: "episodes_batch \<Rightarrow> episode \<Rightarrow> py_error option \<times> episodes_batch" where
  "add_episode b e =
     (if \<not> is_full b then
        (None, b\<lparr>episodes := episodes b @ [e], current_size := current_size b + episode_len e\<rparr>)
      else (Some ValueError, b))"

section \<open>agents/deep_q_learning/mountain_car/agent.py\<close>

subsection \<open>Data\<close>

text \<open>
  An observation of the environment is a vector of numbers, a transition the tuple
  \<^verbatim>\<open>(state, action, reward, new_state, done)\<close>. Numbers are real numbers here: the
  rounding of floating-point arithmetic is not modelled.
\<close>

type_synonym obs = "real list"

type_synonym transition = "obs \<times> int \<times> real \<times> obs \<times> bool"

text \<open>
  The calls the agent makes to its collaborators, in the order it makes them. The list is
  a ghost: nothing reads it. \<open>EnvStep s a\<close> is \<^verbatim>\<open>env.step(a)\<close> made when \<^verbatim>\<open>env.state\<close>
  was \<open>s\<close>; \<open>RandomSample n k\<close> is \<^verbatim>\<open>random.sample\<close> of \<open>k\<close> elements from a buffer of
  length \<open>n\<close>; \<open>TrainStep xs ys\<close> is \<^verbatim>\<open>model.train_step(xs, ys)\<close>; \<open>SetWeights w\<close> is
  \<^verbatim>\<open>target_model.set_weights(w)\<close>; \<open>Epsilon e\<close> marks the start of an episode of
  \<^verbatim>\<open>train_agent\<close> and holds \<^verbatim>\<open>current_epsilon\<close> as the episode's steps read it.
\<close>

datatype 'w call =
    EnvReset
  | EnvStep obs int
  | RandomSample nat int
  | TrainStep "obs list" "real list list"
  | SetWeights 'w
  | Epsilon real

text \<open>
  What the agent consumes and does not define: the gym environment (a state of type \<open>'e\<close>),
  the network (its weights of type \<open>'w\<close>, its forward pass and one optimiser step), and the
  random draws, the \<open>n\<close>-th draw of a run being a function of \<open>n\<close>.
\<close>

record ('e, 'w) externals =
  env_reset :: "'e \<Rightarrow> 'e"
  env_state :: "'e \<Rightarrow> obs"
  env_step :: "'e \<Rightarrow> int \<Rightarrow> (obs \<times> real \<times> bool) \<times> 'e"
  env_action_n :: int
  goal_position :: real
  predict :: "'w \<Rightarrow> obs \<Rightarrow> real list"
  train_step :: "'w \<Rightarrow> obs list \<Rightarrow> real list list \<Rightarrow> 'w"
  np_random :: "nat \<Rightarrow> real"
  np_randint :: "nat \<Rightarrow> int \<Rightarrow> int"
  random_choice :: "nat \<Rightarrow> transition list \<Rightarrow> nat \<Rightarrow> transition list"

text \<open>
  The attributes of \<^verbatim>\<open>MountainCarAgent\<close>. \<open>replay_maxlen\<close> is the \<^verbatim>\<open>maxlen\<close> of the
  deque \<^verbatim>\<open>replay_memory\<close>, \<open>rng\<close> counts the random draws made so far.
\<close>

record ('e, 'w) agent =
  env :: 'e
  model :: 'w
  target_model :: 'w
  replay_memory :: "transition list"
  replay_maxlen :: nat
  min_replay_memory_size :: int
  batch_size :: int
  target_update_counter :: int
  update_target_every :: int
  rng :: nat
  calls :: "'w call list"

subsection \<open>Library operations\<close>

text \<open>
  \<^verbatim>\<open>deque.append\<close> on a deque with a \<^verbatim>\<open>maxlen\<close>: the item is added on the right, and
  when the deque is then longer than \<^verbatim>\<open>maxlen\<close> the leftmost item is dropped.
\<close>

definition deque_append :: "nat \<Rightarrow> 'a list \<Rightarrow> 'a \<Rightarrow> 'a list" where
  "deque_append maxlen xs x =
     (let ys = xs @ [x] in if length ys > maxlen then tl ys else ys)"

text \<open>
  \<^verbatim>\<open>np.argmax\<close>: the first index of the greatest element; ValueError on an empty array.
\<close>

fun argmax_scan :: "real list \<Rightarrow> nat \<Rightarrow> real \<Rightarrow> nat \<Rightarrow> nat" where
  "argmax_scan [] i best best_i = best_i"
| "argmax_scan (x # xs) i best best_i =
     (if x > best then argmax_scan xs (Suc i) x i else argmax_scan xs (Suc i) best best_i)"

definition np_argmax :: "real list \<Rightarrow> py_error + int" where
  "np_argmax xs =
     (case xs of [] \<Rightarrow> Inl ValueError | x # rest \<Rightarrow> Inr (int (argmax_scan rest 1 x 0)))"

text \<open>\<^verbatim>\<open>np.max\<close>: the greatest element; ValueError on an empty array.\<close>

definition np_max :: "real list \<Rightarrow> py_error + real" where
  "np_max xs = (case xs of [] \<Rightarrow> Inl ValueError | x # rest \<Rightarrow> Inr (fold max rest x))"

text \<open>
  \<^verbatim>\<open>random.sample(population, k)\<close>: ValueError unless \<open>0 \<le> k \<le> len(population)\<close>,
  else the \<open>k\<close> elements the generator picks at its \<open>g\<close>-th draw.
\<close>

definition random_sample ::
  "('e, 'w) externals \<Rightarrow> nat \<Rightarrow> transition list \<Rightarrow> int \<Rightarrow> py_error + transition list" where
  "random_sample X g population k =
     (if k < 0 \<or> int (length population) < k then Inl ValueError
      else Inr (random_choice X g population (nat k)))"

subsection \<open>The agent\<close>

text \<open>
  \<^verbatim>\<open>__init__\<close>, given the environment as \<^verbatim>\<open>gym.make\<close> returns it and the weights \<open>w0\<close> the
  new network starts from. \<^verbatim>\<open>deque(maxlen=n)\<close> raises ValueError for a negative \<open>n\<close>.
\<close>

definition mountain_car_agent_init ::
  "('e, 'w) externals \<Rightarrow> 'e \<Rightarrow> 'w \<Rightarrow> int \<Rightarrow> int \<Rightarrow> int \<Rightarrow> int \<Rightarrow> py_error + ('e, 'w) agent" where
  "mountain_car_agent_init X e0 w0 replay_memory_size min_replay_memory_size' batch_size'
       update_target_every' =
     (if replay_memory_size < 0 then Inl ValueError
      else Inr \<lparr>env = env_reset X e0, model = w0, target_model = w0, replay_memory = [],
                replay_maxlen = nat replay_memory_size,
                min_replay_memory_size = min_replay_memory_size',
                batch_size = batch_size', target_update_counter = 0,
                update_target_every = update_target_every', rng = 0,
                calls = [EnvReset, SetWeights w0]\<rparr>)"

text \<open>
  \<^verbatim>\<open>get_q_values\<close> runs the network on a batch of one state: its result has one row.
  \<^verbatim>\<open>np.argmax\<close> without an axis works on the flattened array.
\<close>

definition get_q_values :: "('e, 'w) externals \<Rightarrow> ('e, 'w) agent \<Rightarrow> obs \<Rightarrow> real list list" where
  "get_q_values X a state = [predict X (model a) state]"

definition produce_action :: "('e, 'w) externals \<Rightarrow> ('e, 'w) agent \<Rightarrow> obs \<Rightarrow> py_error + int" where
  "produce_action X a state = np_argmax (concat (get_q_values X a state))"

definition update_replay_memory :: "('e, 'w) agent \<Rightarrow> transition \<Rightarrow> ('e, 'w) agent" where
  "update_replay_memory a transition =
     a\<lparr>replay_memory := deque_append (replay_maxlen a) (replay_memory a) transition\<rparr>"

text \<open>
  The loop over the minibatch in \<^verbatim>\<open>training_step\<close>. Each element comes with its own rows
  of \<^verbatim>\<open>current_qs_list\<close> and \<^verbatim>\<open>future_qs_list\<close> (the rows at its \<^verbatim>\<open>index\<close>); the
  assignment \<^verbatim>\<open>current_qs[action] = new_q\<close> writes into that row only.
\<close>

fun minibatch_loop ::
  "real \<Rightarrow> (transition \<times> real list \<times> real list) list \<Rightarrow> obs list \<Rightarrow> real list list
     \<Rightarrow> py_error + (obs list \<times> real list list)" where
  "minibatch_loop discount [] states_input target_q_values =
     Inr (states_input, target_q_values)"
| "minibatch_loop discount (((current_state, action, reward, new_current_state, done),
       current_row, future_row) # rest) states_input target_q_values =
     (case (if \<not> done then
              (case np_max future_row of
                 Inl e \<Rightarrow> Inl e
               | Inr max_future_q \<Rightarrow> Inr (reward + discount * max_future_q))
            else Inr reward) of
        Inl e \<Rightarrow> Inl e
      | Inr new_q \<Rightarrow>
          (case py_setitem current_row action new_q of
             Inl e \<Rightarrow> Inl e
           | Inr current_qs \<Rightarrow>
               minibatch_loop discount rest (states_input @ [current_state])
                 (target_q_values @ [current_qs])))"

definition training_step ::
  "('e, 'w) externals \<Rightarrow> real \<Rightarrow> ('e, 'w) agent \<Rightarrow> py_error + ('e, 'w) agent" where
  "training_step X discount a =
     (if int (length (replay_memory a)) < min_replay_memory_size a then Inr a
      else
        (let a1 = a\<lparr>calls := calls a @ [RandomSample (length (replay_memory a)) (batch_size a)]\<rparr>
         in case random_sample X (rng a1) (replay_memory a1) (batch_size a1) of
              Inl e \<Rightarrow> Inl e
            | Inr minibatch \<Rightarrow>
                (let a2 = a1\<lparr>rng := rng a1 + 1\<rparr>;
                     current_qs_list = map (\<lambda>t. predict X (model a2) (fst t)) minibatch;
                     future_qs_list =
                       map (\<lambda>t. predict X (target_model a2) (fst (snd (snd (snd t))))) minibatch
                 in case minibatch_loop discount
                           (zip minibatch (zip current_qs_list future_qs_list)) [] [] of
                      Inl e \<Rightarrow> Inl e
                    | Inr (states_input, target_q_values) \<Rightarrow>
                        Inr (a2\<lparr>model := train_step X (model a2) states_input target_q_values,
                                calls := calls a2 @ [TrainStep states_input target_q_values]\<rparr>))))"

subsection \<open>train\_agent\<close>

definition epsilon_min :: real where
  "epsilon_min = 0.01"

definition epsilon_decay_value :: real where
  "epsilon_decay_value = 0.01"

text \<open>
  The local variables of \<^verbatim>\<open>train_agent\<close> that its loops read and write, with the agent
  itself. \<open>done_flag\<close> is the variable \<^verbatim>\<open>done\<close>.
\<close>

record ('e, 'w) frame =
  self :: "('e, 'w) agent"
  episodes_counter :: int
  episodes_wins :: "bool list"
  episodes_rewards :: "real list"
  current_epsilon :: real
  episode_reward :: real
  done_flag :: bool

text \<open>
  Lines 141 to 144: the epsilon-greedy choice. \<^verbatim>\<open>np.random.randint(0, n)\<close> raises
  ValueError unless \<open>0 < n\<close>.
\<close>

definition choose_action ::
  "('e, 'w) externals \<Rightarrow> real \<Rightarrow> ('e, 'w) agent \<Rightarrow> obs \<Rightarrow> py_error + (int \<times> ('e, 'w) agent)" where
  "choose_action X epsilon a state =
     (let u = np_random X (rng a); a1 = a\<lparr>rng := rng a + 1\<rparr>
      in if u > epsilon then
           (case produce_action X a1 state of
              Inl e \<Rightarrow> Inl e
            | Inr action \<Rightarrow> Inr (action, a1))
         else if env_action_n X \<le> 0 then Inl ValueError
         else Inr (np_randint X (rng a1) (env_action_n X), a1\<lparr>rng := rng a1 + 1\<rparr>))"

text \<open>
  Lines 151 to 156: on a terminal step the win is recorded (\<^verbatim>\<open>new_state[0]\<close> raises
  IndexError on an empty vector) and the counter grows by one.
\<close>

definition count_terminal ::
  "('e, 'w) externals \<Rightarrow> obs \<Rightarrow> bool \<Rightarrow> bool list \<Rightarrow> ('e, 'w) agent
     \<Rightarrow> py_error + (bool list \<times> ('e, 'w) agent)" where
  "count_terminal X new_state done wins a =
     (if done then
        (case py_getitem new_state 0 of
           Inl e \<Rightarrow> Inl e
         | Inr p \<Rightarrow>
             Inr (wins @ [p \<ge> goal_position X],
                  a\<lparr>target_update_counter := target_update_counter a + 1\<rparr>))
      else Inr (wins, a))"

text \<open>
  Lines 159 to 161. Python's \<^verbatim>\<open>%\<close> raises ZeroDivisionError for a zero divisor and
  otherwise takes the sign of the divisor, as \<open>mod\<close> on \<open>int\<close> does.
\<close>

definition update_target ::
  "('e, 'w) agent \<Rightarrow> py_error + ('e, 'w) agent" where
  "update_target a =
     (if update_target_every a = 0 then Inl ZeroDivisionError
      else if target_update_counter a mod update_target_every a = 0
              \<and> target_update_counter a > 0 then
        Inr (a\<lparr>target_model := model a, target_update_counter := 0,
               calls := calls a @ [SetWeights (model a)]\<rparr>)
      else Inr a)"

text \<open>The body of \<^verbatim>\<open>while not done\<close>, lines 137 to 163, without the rendering.\<close>

definition loop_body ::
  "('e, 'w) externals \<Rightarrow> real \<Rightarrow> ('e, 'w) frame \<Rightarrow> py_error + ('e, 'w) frame" where
  "loop_body X discount f =
     (let state = env_state X (env (self f))
      in case choose_action X (current_epsilon f) (self f) state of
           Inl e \<Rightarrow> Inl e
         | Inr (action, a1) \<Rightarrow>
             (let ((new_state, reward, done), e') = env_step X (env a1) action;
                  a2 = a1\<lparr>env := e', calls := calls a1 @ [EnvStep state action]\<rparr>;
                  a3 = update_replay_memory a2 (state, action, reward, new_state, done)
              in case training_step X discount a3 of
                   Inl e \<Rightarrow> Inl e
                 | Inr a4 \<Rightarrow>
                     (case count_terminal X new_state done (episodes_wins f) a4 of
                        Inl e \<Rightarrow> Inl e
                      | Inr (wins, a5) \<Rightarrow>
                          (case update_target a5 of
                             Inl e \<Rightarrow> Inl e
                           | Inr a6 \<Rightarrow>
                               Inr (f\<lparr>self := a6, episodes_wins := wins,
                                      episode_reward := episode_reward f + reward,
                                      done_flag := done\<rparr>)))))"

text \<open>
  \<^verbatim>\<open>while not done\<close>. The environment decides whether the loop ends: \<open>None\<close> is a loop
  that runs forever.
\<close>

partial_function (option) while_not_done ::
  "('e, 'w) externals \<Rightarrow> real \<Rightarrow> ('e, 'w) frame \<Rightarrow> (py_error + ('e, 'w) frame) option" where
  "while_not_done X discount f =
     (if done_flag f then Some (Inr f)
      else (case loop_body X discount f of
              Inl e \<Rightarrow> Some (Inl e)
            | Inr f' \<Rightarrow> while_not_done X discount f'))"

text \<open>
  The body of \<^verbatim>\<open>for episode in range(episodes)\<close>, lines 115 to 168
  (\<open>episodes'\<close> is the parameter \<^verbatim>\<open>episodes\<close>). Of the report made
  every \<^verbatim>\<open>show_every\<close> episodes the model keeps the raise of \<^verbatim>\<open>% show_every\<close>.
\<close>

definition episode_body ::
  "('e, 'w) externals \<Rightarrow> real \<Rightarrow> int \<Rightarrow> int \<Rightarrow> int \<Rightarrow> int \<Rightarrow> ('e, 'w) frame
     \<Rightarrow> (py_error + ('e, 'w) frame) option" where
  "episode_body X discount episodes' show_every cycle episode f =
     (let epsilon' = max epsilon_min (current_epsilon f);
          a1 = (self f)\<lparr>env := env_reset X (env (self f)),
                        calls := calls (self f) @ [EnvReset, Epsilon epsilon']\<rparr>;
          f1 = f\<lparr>self := a1, done_flag := False, episode_reward := 0,
                 current_epsilon := epsilon'\<rparr>
      in if episode + cycle * episodes' > 0 \<and> show_every = 0 then Some (Inl ZeroDivisionError)
         else (case while_not_done X discount f1 of
                 None \<Rightarrow> None
               | Some (Inl e) \<Rightarrow> Some (Inl e)
               | Some (Inr f2) \<Rightarrow>
                   Some (Inr (f2\<lparr>current_epsilon := current_epsilon f2 - epsilon_decay_value,
                                 episodes_rewards := episodes_rewards f2 @ [episode_reward f2],
                                 episodes_counter := episodes_counter f2 + 1\<rparr>))))"

fun episodes_loop ::
  "('e, 'w) externals \<Rightarrow> real \<Rightarrow> int \<Rightarrow> int \<Rightarrow> int \<Rightarrow> int list \<Rightarrow> ('e, 'w) frame
     \<Rightarrow> (py_error + ('e, 'w) frame) option" where
  "episodes_loop X discount episodes' show_every cycle [] f = Some (Inr f)"
| "episodes_loop X discount episodes' show_every cycle (episode # rest) f =
     (case episode_body X discount episodes' show_every cycle episode f of
        None \<Rightarrow> None
      | Some (Inl e) \<Rightarrow> Some (Inl e)
      | Some (Inr f') \<Rightarrow> episodes_loop X discount episodes' show_every cycle rest f')"

text \<open>\<^verbatim>\<open>range(n)\<close>: the integers from 0 up to \<open>n - 1\<close>, none when \<open>n \<le> 0\<close>.\<close>

definition py_range :: "int \<Rightarrow> int list" where
  "py_range n = map int [0..<nat n]"

fun cycles_loop ::
  "('e, 'w) externals \<Rightarrow> real \<Rightarrow> int \<Rightarrow> real \<Rightarrow> int \<Rightarrow> int list \<Rightarrow> ('e, 'w) frame
     \<Rightarrow> (py_error + ('e, 'w) frame) option" where
  "cycles_loop X discount episodes' epsilon show_every [] f = Some (Inr f)"
| "cycles_loop X discount episodes' epsilon show_every (cycle # rest) f =
     (case episodes_loop X discount episodes' show_every cycle (py_range episodes')
             (f\<lparr>current_epsilon := epsilon\<rparr>) of
        None \<Rightarrow> None
      | Some (Inl e) \<Rightarrow> Some (Inl e)
      | Some (Inr f') \<Rightarrow> cycles_loop X discount episodes' epsilon show_every rest f')"

text \<open>
  \<^verbatim>\<open>train_agent\<close> up to the end of its loops (line 168); the moving average, the plot and
  the saving of the model that follow are left out. \<^verbatim>\<open>current_epsilon\<close>,
  \<^verbatim>\<open>episode_reward\<close> and \<^verbatim>\<open>done\<close> have no value before the loops assign them; the
  frame starts them at \<open>epsilon\<close>, 0 and False.
\<close>

definition train_agent ::
  "('e, 'w) externals \<Rightarrow> ('e, 'w) agent \<Rightarrow> int \<Rightarrow> real \<Rightarrow> int option \<Rightarrow> real \<Rightarrow> int
     \<Rightarrow> (py_error + ('e, 'w) frame) option" where
  "train_agent X a episodes' epsilon show_every discount cycles =
     (let show_every' = (case show_every of None \<Rightarrow> episodes' | Some n \<Rightarrow> n);
          f0 = \<lparr>self = a, episodes_counter = 0, episodes_wins = [], episodes_rewards = [],
                current_epsilon = epsilon, episode_reward = 0, done_flag = False\<rparr>
      in cycles_loop X discount episodes' epsilon show_every' (py_range cycles) f0)"

subsection \<open>play\_game\<close>



subsection \<open>The evaluator of the specification\<close>


subsection \<open>Reading the list of calls\<close>

text \<open>
  The starts of episodes and the copies of the weights into the target network, in the
  order they happened; and the values of epsilon the episodes started with.
\<close>

datatype mark = EpisodeStart | Sync

fun marks :: "'w call list \<Rightarrow> mark list" where
  "marks [] = []"
| "marks (Epsilon e # cs) = EpisodeStart # marks cs"
| "marks (SetWeights w # cs) = Sync # marks cs"
| "marks (c # cs) = marks cs"

fun epsilons :: "'w call list \<Rightarrow> real list" where
  "epsilons [] = []"
| "epsilons (Epsilon e # cs) = e # epsilons cs"
| "epsilons (c # cs) = epsilons cs"

section \<open>Concrete inputs\<close>

text \<open>A batch with room for one step, a full batch, and an episode of two steps.\<close>

definition batch_open :: episodes_batch where
  "batch_open = \<lparr>episodes = [], max_size = 1, current_size = 0\<rparr>"

definition batch_full :: episodes_batch where
  "batch_full = \<lparr>episodes = [], max_size = 0, current_size = 0\<rparr>"

definition episode_two :: episode where
  "episode_two = \<lparr>states = [[0], [1]], rewards = [0, 0], ep_actions = [0, 0]\<rparr>"

text \<open>
  A game on a board of 3 by 3 with the player next to the goal, and the same game with
  the player away from the goal and one step left to play.
\<close>

definition game_near :: move_to_goal where
  "game_near = \<lparr>board_x = 3, board_y = 3, goal_reward = 1, move_reward = - 1,
     game_end = 200, steps_played = 0, player = Some (1, 1), goal = Some (2, 1)\<rparr>"

definition game_last :: move_to_goal where
  "game_last = \<lparr>board_x = 3, board_y = 3, goal_reward = 1, move_reward = - 1,
     game_end = 200, steps_played = 199, player = Some (0, 0), goal = Some (2, 2)\<rparr>"

text \<open>
  A small world. The environment counts the steps of the episode, shows the count as the
  position, and ends an episode at its second step; the goal is at 1.5. The weights of
  the network are one number \<open>w\<close>, the predicted values are \<open>w\<close>, \<open>2 w\<close> and \<open>3 w\<close> for every
  state, and a training step adds one to \<open>w\<close>. Every random number is 1, every random
  action is 0, and a sample is the oldest part of the buffer.
\<close>

definition toy :: "(nat, real) externals" where
  "toy = \<lparr>env_reset = (\<lambda>e. 0), env_state = (\<lambda>e. [real e, 0]),
     env_step = (\<lambda>e a. (([real (e + 1), 0], - 1, 2 \<le> e + 1), e + 1)),
     env_action_n = 3, goal_position = 1.5,
     predict = (\<lambda>w s. [w, 2 * w, 3 * w]), train_step = (\<lambda>w xs ys. w + 1),
     np_random = (\<lambda>n. 1), np_randint = (\<lambda>n k. 0), random_choice = (\<lambda>n xs k. take k xs)\<rparr>"

text \<open>
  The agent the constructor makes in that world for a buffer of capacity 5, a minimum
  fill of 10, batches of 4 and a copy of the weights every 3 episodes.
\<close>

definition toy_agent :: "(nat, real) agent" where
  "toy_agent = \<lparr>env = 0, model = 1, target_model = 1, replay_memory = [],
     replay_maxlen = 5, min_replay_memory_size = 10, batch_size = 4,
     target_update_counter = 0, update_target_every = 3, rng = 0,
     calls = [EnvReset, SetWeights 1]\<rparr>"

text \<open>
  The same agent with a target network that differs from the main one, a minimum fill of
  2, batches of 2, and two transitions in the buffer: a step that went on and a terminal
  step.
\<close>

definition toy_filled :: "(nat, real) agent" where
  "toy_filled = toy_agent\<lparr>target_model := 2, min_replay_memory_size := 2, batch_size := 2,
     replay_memory := [([0, 0], 0, - 1, [1, 0], False), ([1, 0], 1, 10, [2, 0], True)]\<rparr>"


text \<open>The local variables of \<open>train_agent\<close> as its loops find them, for that agent.\<close>

definition toy_frame :: "(nat, real) frame" where
  "toy_frame = \<lparr>self = toy_agent, episodes_counter = 0, episodes_wins = [],
     episodes_rewards = [], current_epsilon = 1, episode_reward = 0, done_flag = False\<rparr>"

text \<open>
  The same variables in the middle of an episode whose next step is its last, for an
  agent that has counted two episodes since the last copy of the weights and whose main
  network has moved on to the weights 5.
\<close>

definition toy_frame_due :: "(nat, real) frame" where
  "toy_frame_due = toy_frame\<lparr>self := toy_agent\<lparr>env := 1, model := 5,
     target_update_counter := 2\<rparr>\<rparr>"

text \<open>Transitions told apart by their reward.\<close>

definition labelled :: "real \<Rightarrow> transition" where
  "labelled r = ([0, 0], 0, r, [0, 0], False)"


section \<open>The replay buffer\<close>

lemma deque_append_length: "length xs \<le> n \<Longrightarrow> length (deque_append n xs x) \<le> n"
  by (simp add: deque_append_def Let_def)

lemma update_replay_memory_maxlen [simp]:
  "replay_maxlen (update_replay_memory a t) = replay_maxlen a"
  by (simp add: update_replay_memory_def)

lemma update_replay_memory_bounded:
  "length (replay_memory a) \<le> replay_maxlen a \<Longrightarrow>
   length (replay_memory (update_replay_memory a t)) \<le> replay_maxlen a"
  by (simp add: update_replay_memory_def deque_append_length)

lemma pushes_bounded:
  "length (replay_memory a) \<le> replay_maxlen a \<Longrightarrow>
   length (replay_memory (fold (\<lambda>t b. update_replay_memory b t) ts a)) \<le> replay_maxlen a
   \<and> replay_maxlen (fold (\<lambda>t b. update_replay_memory b t) ts a) = replay_maxlen a"
proof (induction ts arbitrary: a)
  case Nil
  then show ?case by simp
next
  case (Cons t ts)
  from Cons.prems have "length (replay_memory (update_replay_memory a t))
      \<le> replay_maxlen (update_replay_memory a t)"
    by (simp add: update_replay_memory_bounded)
  from Cons.IH [OF this] show ?case by simp
qed

text \<open>
  C2. Whatever transitions are pushed with \<open>update_replay_memory\<close>, the buffer never holds
  more than its capacity, which for an agent made by the constructor is
  \<open>replay_memory_size\<close>. Below capacity a push adds the transition at the end. At capacity
  the buffer after a push is the old one with the new transition added and the first
  element dropped: a buffer that held anything loses its oldest transition and keeps the
  others in order, followed by the new one. Seven transitions pushed into an empty buffer
  of capacity 5 leave the third to the seventh, in that order.
\<close>

theorem replay_memory_fifo:
  "(length (replay_memory a) \<le> replay_maxlen a \<longrightarrow>
      length (replay_memory (fold (\<lambda>t b. update_replay_memory b t) ts a)) \<le> replay_maxlen a)
   \<and> (mountain_car_agent_init X e0 w0 replay_memory_size m k u = Inr a0 \<longrightarrow>
      int (length (replay_memory (fold (\<lambda>t b. update_replay_memory b t) ts a0)))
        \<le> replay_memory_size)
   \<and> (length (replay_memory a) < replay_maxlen a \<longrightarrow>
      replay_memory (update_replay_memory a t) = replay_memory a @ [t])
   \<and> (length (replay_memory a) = replay_maxlen a \<longrightarrow>
      replay_memory (update_replay_memory a t) = tl (replay_memory a @ [t]))
   \<and> (length (replay_memory a) = replay_maxlen a \<and> replay_memory a = oldest # kept \<longrightarrow>
      replay_memory (update_replay_memory a t) = kept @ [t])
   \<and> (replay_memory a = [] \<and> replay_maxlen a = 5 \<longrightarrow>
      replay_memory (fold (\<lambda>t b. update_replay_memory b t) [t1, t2, t3, t4, t5, t6, t7] a)
        = [t3, t4, t5, t6, t7])"
proof (intro conjI impI)
  assume "length (replay_memory a) \<le> replay_maxlen a"
  then show "length (replay_memory (fold (\<lambda>t b. update_replay_memory b t) ts a))
      \<le> replay_maxlen a"
    by (simp add: pushes_bounded)
next
  assume init: "mountain_car_agent_init X e0 w0 replay_memory_size m k u = Inr a0"
  then have a0: "replay_memory a0 = []" "replay_maxlen a0 = nat replay_memory_size"
    "0 \<le> replay_memory_size"
    by (auto simp: mountain_car_agent_init_def split: if_splits)
  then have "length (replay_memory (fold (\<lambda>t b. update_replay_memory b t) ts a0))
      \<le> nat replay_memory_size"
    using pushes_bounded [of a0 ts] by simp
  with a0 show "int (length (replay_memory (fold (\<lambda>t b. update_replay_memory b t) ts a0)))
        \<le> replay_memory_size"
    by linarith
next
  assume "length (replay_memory a) < replay_maxlen a"
  then show "replay_memory (update_replay_memory a t) = replay_memory a @ [t]"
    by (simp add: update_replay_memory_def deque_append_def)
next
  assume "length (replay_memory a) = replay_maxlen a"
  then show "replay_memory (update_replay_memory a t) = tl (replay_memory a @ [t])"
    by (auto simp add: update_replay_memory_def deque_append_def)
next
  assume "length (replay_memory a) = replay_maxlen a \<and> replay_memory a = oldest # kept"
  then show "replay_memory (update_replay_memory a t) = kept @ [t]"
    by (auto simp add: update_replay_memory_def deque_append_def)
next
  assume "replay_memory a = [] \<and> replay_maxlen a = 5"
  then show "replay_memory (fold (\<lambda>t b. update_replay_memory b t) [t1, t2, t3, t4, t5, t6, t7] a)
        = [t3, t4, t5, t6, t7]"
    by (simp add: update_replay_memory_def deque_append_def)
qed

theorem replay_memory_fifo_witness:
  "mountain_car_agent_init toy 7 1 5 10 4 3 = Inr toy_agent
   \<and> replay_memory (fold (\<lambda>t b. update_replay_memory b t)
       (map labelled [1, 2, 3, 4, 5, 6, 7]) toy_agent)
     = map labelled [3, 4, 5, 6, 7]
   \<and> length (replay_memory (fold (\<lambda>t b. update_replay_memory b t)
       (map labelled [1, 2, 3, 4, 5, 6, 7]) toy_agent)) \<le> 5
   \<and> replay_memory (update_replay_memory toy_agent (labelled 1)) = [labelled 1]
   \<and> replay_memory (update_replay_memory
        (toy_agent\<lparr>replay_memory := map labelled [1, 2, 3, 4, 5]\<rparr>) (labelled 6))
       = map labelled [2, 3, 4, 5, 6]"
proof -
  let ?ts = "map labelled [1, 2, 3, 4, 5, 6, 7]"
  let ?a5 = "toy_agent\<lparr>replay_memory := map labelled [1, 2, 3, 4, 5]\<rparr>"
  have init: "mountain_car_agent_init toy 7 1 5 10 4 3 = Inr toy_agent"
    by (simp add: mountain_car_agent_init_def toy_def toy_agent_def)
  have e: "replay_memory toy_agent = []" "replay_maxlen toy_agent = 5"
    "replay_memory ?a5 = labelled 1 # map labelled [2, 3, 4, 5]" "replay_maxlen ?a5 = 5"
    by (simp_all add: toy_agent_def)
  note empty_buffer = replay_memory_fifo [of toy_agent ?ts toy 7 1 5 10 4 3
      toy_agent "labelled 1" "labelled 1" "[]" "labelled 1" "labelled 2" "labelled 3"
      "labelled 4" "labelled 5" "labelled 6" "labelled 7"]
  note full_buffer = replay_memory_fifo [of ?a5 "[]" toy 7 1 5 10 4 3 toy_agent
      "labelled 6" "labelled 1" "map labelled [2, 3, 4, 5]" "labelled 1" "labelled 2"
      "labelled 3" "labelled 4" "labelled 5" "labelled 6" "labelled 7"]
  show ?thesis using empty_buffer full_buffer init e by simp
qed

section \<open>EpisodesBatch\<close>

text \<open>
  C10. \<open>add_episode\<close> raises ValueError exactly when \<open>current_size\<close> has reached
  \<open>max_size\<close> at the call, and then leaves the batch as it was. Otherwise it appends the
  episode and adds the episode's length to \<open>current_size\<close>. Since fullness is tested before
  the episode is added, a batch can end above \<open>max_size\<close>.
\<close>

theorem add_episode_full_check:
  "(fst (add_episode b e) = Some ValueError \<longleftrightarrow> current_size b \<ge> max_size b)
   \<and> (fst (add_episode b e) = None \<longleftrightarrow> current_size b < max_size b)
   \<and> (current_size b \<ge> max_size b \<longrightarrow> snd (add_episode b e) = b)
   \<and> (current_size b < max_size b \<longrightarrow>
        episodes (snd (add_episode b e)) = episodes b @ [e]
        \<and> current_size (snd (add_episode b e)) = current_size b + int (length (states e))
        \<and> max_size (snd (add_episode b e)) = max_size b)
   \<and> (\<exists>b' e'. fst (add_episode b' e') = None
         \<and> current_size (snd (add_episode b' e')) > max_size (snd (add_episode b' e')))"
proof -
  have "fst (add_episode batch_open episode_two) = None
         \<and> current_size (snd (add_episode batch_open episode_two))
             > max_size (snd (add_episode batch_open episode_two))"
    by (simp add: add_episode_def is_full_def episode_len_def batch_open_def episode_two_def)
  then have over: "\<exists>b' e'. fst (add_episode b' e') = None
         \<and> current_size (snd (add_episode b' e')) > max_size (snd (add_episode b' e'))"
    by blast
  show ?thesis
    using over by (auto simp: add_episode_def is_full_def episode_len_def)
qed

theorem add_episode_full_check_witness:
  "current_size batch_open < max_size batch_open
   \<and> fst (add_episode batch_open episode_two) = None
   \<and> episodes (snd (add_episode batch_open episode_two)) = [episode_two]
   \<and> current_size (snd (add_episode batch_open episode_two)) = 2
   \<and> max_size (snd (add_episode batch_open episode_two)) = 1
   \<and> current_size batch_full \<ge> max_size batch_full
   \<and> fst (add_episode batch_full episode_two) = Some ValueError
   \<and> snd (add_episode batch_full episode_two) = batch_full"
proof -
  have sizes: "current_size batch_open = 0" "max_size batch_open = 1"
    "episodes batch_open = []" "current_size batch_full = 0" "max_size batch_full = 0"
    "length (states episode_two) = 2"
    by (simp_all add: batch_open_def batch_full_def episode_two_def)
  show ?thesis
    using add_episode_full_check [of batch_open episode_two]
      add_episode_full_check [of batch_full episode_two] sizes
    by simp
qed

section \<open>MoveToGoal\<close>

text \<open>
  An index that \<^verbatim>\<open>self.actions[action]\<close> does not accept raises before anything is
  written.
\<close>

lemma execute_player_action_out_of_range:
  "action < - 4 \<or> 4 \<le> action \<Longrightarrow> execute_player_action g action = (Some IndexError, g)"
  by (auto simp: execute_player_action_def py_getitem_def py_index_def actions_def)

text \<open>
  C8. The claim is that every action outside \<open>[0, 4)\<close> raises and leaves the player where
  it was. The action \<open>- 1\<close> does not: \<^verbatim>\<open>self.actions[-1]\<close> is \<^verbatim>\<open>"left"\<close>, and on a board
  of 3 by 3 the player at \<open>(1, 1)\<close> moves to \<open>(0, 1)\<close> with no raise.
\<close>

theorem execute_player_action_negative_index:
  "execute_player_action
     \<lparr>board_x = 3, board_y = 3, goal_reward = 1, move_reward = - 1, game_end = 200,
      steps_played = 0, player = Some (1, 1), goal = Some (2, 2)\<rparr> (- 1)
   = (None, \<lparr>board_x = 3, board_y = 3, goal_reward = 1, move_reward = - 1, game_end = 200,
      steps_played = 0, player = Some (0, 1), goal = Some (2, 2)\<rparr>)"
  by (simp add: execute_player_action_def py_getitem_def py_index_def actions_def
      generate_board_def)

section \<open>The training step\<close>

lemma marks_append [simp]: "marks (xs @ ys) = marks xs @ marks ys"
  by (induction xs rule: marks.induct) simp_all

lemma epsilons_append [simp]: "epsilons (xs @ ys) = epsilons xs @ epsilons ys"
  by (induction xs rule: epsilons.induct) simp_all

lemma np_max_Inr: "np_max xs = Inr m \<longleftrightarrow> xs \<noteq> [] \<and> m = Max (set xs)"
proof (cases xs)
  case Nil
  then show ?thesis by (simp add: np_max_def)
next
  case (Cons x rest)
  have "fold max rest x = Max (set (x # rest))"
    by (simp only: Max.set_eq_fold)
  with Cons show ?thesis by (auto simp: np_max_def)
qed

lemma py_setitem_Inr:
  "py_setitem xs i v = Inr ys \<longleftrightarrow> (\<exists>k. py_index (length xs) i = Some k \<and> ys = xs[k := v])"
  by (auto simp: py_setitem_def split: option.splits)

lemma py_index_bound: "py_index n i = Some k \<Longrightarrow> k < n \<and> (0 \<le> i \<longrightarrow> k = nat i)"
  by (auto simp: py_index_def split: if_splits)

text \<open>
  The loop over the minibatch adds one state and one row per element: the row is the
  element's own row of current values with one position overwritten.
\<close>

lemma minibatch_loop_Inr:
  "minibatch_loop discount zs xs0 ys0 = Inr (xs, ys) \<Longrightarrow>
   xs = xs0 @ map (\<lambda>z. fst (fst z)) zs \<and>
   (\<exists>rows. ys = ys0 @ rows \<and>
      list_all2 (\<lambda>z row. case z of ((s, act, r, s', dn), cur, fut) \<Rightarrow>
          (\<exists>k. py_index (length cur) act = Some k \<and> (dn \<or> fut \<noteq> []) \<and>
               row = cur[k := (if dn then r else r + discount * Max (set fut))])) zs rows)"
  (is "_ \<Longrightarrow> _ \<and> (\<exists>rows. _ \<and> list_all2 ?ok zs rows)")
proof (induction zs arbitrary: xs0 ys0)
  case Nil
  then show ?case by simp
next
  case (Cons z rest)
  obtain s act r s' dn cur fut where z: "z = ((s, act, r, s', dn), cur, fut)"
    by (metis prod.exhaust)
  define new_q where "new_q = (if dn then r else r + discount * Max (set fut))"
  from Cons.prems z have fut: "dn \<or> fut \<noteq> []"
    by (auto split: sum.splits simp: np_max_Inr)
  from Cons.prems z obtain current_qs where
      set: "py_setitem cur act new_q = Inr current_qs" and
      rec: "minibatch_loop discount rest (xs0 @ [s]) (ys0 @ [current_qs]) = Inr (xs, ys)"
    by (auto split: sum.splits if_splits simp: np_max_Inr new_q_def)
  from Cons.IH [OF rec] obtain rows where
      xs: "xs = (xs0 @ [s]) @ map (\<lambda>z. fst (fst z)) rest" and
      ys: "ys = (ys0 @ [current_qs]) @ rows" and
      ok: "list_all2 ?ok rest rows"
    by blast
  from set obtain k where k: "py_index (length cur) act = Some k" "current_qs = cur[k := new_q]"
    by (auto simp: py_setitem_Inr)
  with fut z have "?ok z current_qs"
    by (simp add: new_q_def)
  with ok have "list_all2 ?ok (z # rest) (current_qs # rows)"
    by simp
  with xs ys z show ?case
    by (intro conjI exI [of _ "current_qs # rows"]) simp_all
qed

lemma training_step_Inr:
  assumes "training_step X discount a = Inr a'"
  shows "(int (length (replay_memory a)) < min_replay_memory_size a \<and> a' = a)
    \<or> (\<not> int (length (replay_memory a)) < min_replay_memory_size a
        \<and> 0 \<le> batch_size a \<and> batch_size a \<le> int (length (replay_memory a))
        \<and> (\<exists>xs ys. 
             (let minibatch = random_choice X (rng a) (replay_memory a) (nat (batch_size a)) in
              minibatch_loop discount
                (zip minibatch (zip (map (\<lambda>t. predict X (model a) (fst t)) minibatch)
                   (map (\<lambda>t. predict X (target_model a) (fst (snd (snd (snd t))))) minibatch)))
                [] [] = Inr (xs, ys))
             \<and> a' = a\<lparr>model := train_step X (model a) xs ys, rng := rng a + 1,
                    calls := calls a @ [RandomSample (length (replay_memory a)) (batch_size a),
                                        TrainStep xs ys]\<rparr>))"
  using assms
  by (auto simp: training_step_def random_sample_def Let_def split: if_splits sum.splits)


text \<open>
  C1. When \<open>training_step\<close> trains, it calls \<^verbatim>\<open>train_step\<close> once, on the states of the
  minibatch and one target row per transition. The row for \<open>(s, a, r, s', done)\<close> is the
  main model's prediction for \<open>s\<close> before the call with the single position that the
  subscript \<open>a\<close> names (position \<open>a\<close> itself for \<open>0 \<le> a\<close>) overwritten: by \<open>r\<close> when \<open>done\<close>
  holds, else by \<open>r\<close> plus \<open>discount\<close> times the greatest value the target model predicts
  for \<open>s'\<close>.
\<close>

theorem training_step_targets:
  assumes step: "training_step X discount a = Inr a'"
      and filled: "min_replay_memory_size a \<le> int (length (replay_memory a))"
  shows "\<exists>targets.
     (let minibatch = random_choice X (rng a) (replay_memory a) (nat (batch_size a)) in
       calls a' = calls a @ [RandomSample (length (replay_memory a)) (batch_size a),
                             TrainStep (map fst minibatch) targets]
       \<and> model a' = train_step X (model a) (map fst minibatch) targets
       \<and> length targets = length minibatch
       \<and> (\<forall>i < length minibatch. case minibatch ! i of (s, act, r, s', dn) \<Rightarrow>
            (\<exists>k. py_index (length (predict X (model a) s)) act = Some k
               \<and> (0 \<le> act \<longrightarrow> k = nat act)
               \<and> targets ! i = (predict X (model a) s)
                    [k := (if dn then r
                           else r + discount * Max (set (predict X (target_model a) s')))])))"
proof -
  define minibatch where "minibatch = random_choice X (rng a) (replay_memory a) (nat (batch_size a))"
  define zs where "zs = zip minibatch (zip (map (\<lambda>t. predict X (model a) (fst t)) minibatch)
                   (map (\<lambda>t. predict X (target_model a) (fst (snd (snd (snd t))))) minibatch))"
  from training_step_Inr [OF step] filled obtain xs ys where
      loop: "minibatch_loop discount zs [] [] = Inr (xs, ys)" and
      a': "a' = a\<lparr>model := train_step X (model a) xs ys, rng := rng a + 1,
                    calls := calls a @ [RandomSample (length (replay_memory a)) (batch_size a),
                                        TrainStep xs ys]\<rparr>"
    by (auto simp: Let_def minibatch_def zs_def)
  have len: "length zs = length minibatch"
    by (simp add: zs_def)
  have nth: "zs ! i = (minibatch ! i, predict X (model a) (fst (minibatch ! i)),
                predict X (target_model a) (fst (snd (snd (snd (minibatch ! i))))))"
    if "i < length minibatch" for i
    using that by (simp add: zs_def)
  from minibatch_loop_Inr [OF loop] have xs: "xs = map (\<lambda>z. fst (fst z)) zs" and
      rows: "list_all2 (\<lambda>z row. case z of ((s, act, r, s', dn), cur, fut) \<Rightarrow>
          (\<exists>k. py_index (length cur) act = Some k \<and> (dn \<or> fut \<noteq> []) \<and>
               row = cur[k := (if dn then r else r + discount * Max (set fut))])) zs ys"
    by auto
  have xs': "xs = map fst minibatch"
    unfolding xs by (rule nth_equalityI) (simp_all add: len nth)
  from rows have len_ys: "length ys = length minibatch"
    by (simp add: list_all2_lengthD [symmetric] len)
  have row: "case minibatch ! i of (s, act, r, s', dn) \<Rightarrow>
            (\<exists>k. py_index (length (predict X (model a) s)) act = Some k
               \<and> (0 \<le> act \<longrightarrow> k = nat act)
               \<and> ys ! i = (predict X (model a) s)
                    [k := (if dn then r
                           else r + discount * Max (set (predict X (target_model a) s')))])"
    if i: "i < length minibatch" for i
  proof -
    obtain s act r s' dn where t: "minibatch ! i = (s, act, r, s', dn)"
      by (metis prod.exhaust)
    from list_all2_nthD [OF rows, of i] i len nth [OF i] t
    obtain k where "py_index (length (predict X (model a) s)) act = Some k"
      "ys ! i = (predict X (model a) s)
                    [k := (if dn then r
                           else r + discount * Max (set (predict X (target_model a) s')))]"
      by auto
    with py_index_bound [of "length (predict X (model a) s)" act k] t show ?thesis
      by auto
  qed
  show ?thesis
    unfolding Let_def minibatch_def [symmetric]
    by (rule exI [of _ ys]) (use a' xs' len_ys row in simp)
qed

lemma toy_filled_step:
  "training_step toy (1 / 2) toy_filled
     = Inr (toy_filled\<lparr>model := 2, rng := 1,
         calls := calls toy_filled @ [RandomSample 2 2,
           TrainStep [[0, 0], [1, 0]] [[2, 2, 3], [1, 10, 3]]]\<rparr>)"
  by (simp add: training_step_def toy_filled_def toy_agent_def toy_def random_sample_def
      np_max_def py_setitem_def py_index_def)

theorem training_step_targets_witness:
  "training_step toy (1 / 2) toy_filled
     = Inr (toy_filled\<lparr>model := 2, rng := 1,
         calls := calls toy_filled @ [RandomSample 2 2,
           TrainStep [[0, 0], [1, 0]] [[2, 2, 3], [1, 10, 3]]]\<rparr>)
   \<and> min_replay_memory_size toy_filled \<le> int (length (replay_memory toy_filled))
   \<and> (\<exists>targets.
        calls toy_filled @ [RandomSample 2 2, TrainStep [[0, 0], [1, 0]] [[2, 2, 3], [1, 10, 3]]]
          = calls toy_filled @ [RandomSample 2 2, TrainStep [[0, 0], [1, 0]] targets]
        \<and> targets ! 0 = [1, 2, 3][0 := - 1 + 1 / 2 * Max (set [2, 4, 6])]
        \<and> targets ! 1 = [1, 2, 3][1 := 10])"
proof -
  have filled: "min_replay_memory_size toy_filled \<le> int (length (replay_memory toy_filled))"
    by (simp add: toy_filled_def toy_agent_def)
  have mb: "random_choice toy (rng toy_filled) (replay_memory toy_filled)
      (nat (batch_size toy_filled)) = [([0, 0], 0, - 1, [1, 0], False), ([1, 0], 1, 10, [2, 0], True)]"
    by (simp add: toy_filled_def toy_agent_def toy_def)
  have p: "predict toy = (\<lambda>w s. [w, 2 * w, 3 * w])" "model toy_filled = 1" "target_model toy_filled = 2"
    by (simp_all add: toy_filled_def toy_agent_def toy_def)
  from training_step_targets [OF toy_filled_step filled]
  obtain targets where
    c: "calls toy_filled @ [RandomSample 2 2, TrainStep [[0, 0], [1, 0]] [[2, 2, 3], [1, 10, 3]]]
          = calls toy_filled @ [RandomSample (length (replay_memory toy_filled)) (batch_size toy_filled), 
             TrainStep (map fst [([0, 0], 0, - 1, [1, 0], False), ([1, 0], 1, 10, [2, 0], True)]) targets]" and
    r: "\<forall>i<2. case [([0, 0], 0, - 1, [1, 0], False), ([1, 0], 1, 10, [2::real, 0], True)] ! i of (s, act, r, s', dn) \<Rightarrow>
            (\<exists>k. py_index (length (predict toy (model toy_filled) s)) act = Some k
               \<and> (0 \<le> act \<longrightarrow> k = nat act)
               \<and> targets ! i = (predict toy (model toy_filled) s)
                    [k := (if dn then r
                           else r + 1 / 2 * Max (set (predict toy (target_model toy_filled) s')))])"
    unfolding Let_def mb by auto
  from r [rule_format, of 0] r [rule_format, of 1]
  have "targets ! 0 = [1, 2, 3][0 := - 1 + 1 / 2 * Max (set [2, 4, 6])]"
    "targets ! 1 = [1, 2, 3][1 := 10]"
    by (auto simp: p)
  with c toy_filled_step filled show ?thesis
    by (auto simp: toy_filled_def toy_agent_def)
qed

section \<open>Below the minimum fill\<close>

lemma deque_append_length_le: "length (deque_append n xs x) \<le> Suc (length xs)"
  by (simp add: deque_append_def Let_def)

lemma update_replay_memory_min [simp]:
  "min_replay_memory_size (update_replay_memory a t) = min_replay_memory_size a"
  by (simp add: update_replay_memory_def)

lemma training_step_skip:
  "int (length (replay_memory a)) < min_replay_memory_size a \<Longrightarrow> training_step X discount a = Inr a"
  by (simp add: training_step_def)

lemma push_then_train_skip:
  "int (length (replay_memory a)) + int (length ts) < min_replay_memory_size a \<Longrightarrow>
   fold (\<lambda>t r. case r of Inl e \<Rightarrow> Inl e
                | Inr b \<Rightarrow> training_step X discount (update_replay_memory b t)) ts (Inr a)
     = Inr (fold (\<lambda>t b. update_replay_memory b t) ts a)"
proof (induction ts arbitrary: a)
  case Nil
  then show ?case by simp
next
  case (Cons t ts)
  let ?b = "update_replay_memory a t"
  have "length (replay_memory ?b) \<le> Suc (length (replay_memory a))"
    by (simp add: update_replay_memory_def deque_append_length_le)
  with Cons.prems have below: "int (length (replay_memory ?b)) + int (length ts)
      < min_replay_memory_size ?b"
    by simp
  then have "training_step X discount ?b = Inr ?b"
    by (intro training_step_skip) linarith
  with Cons.IH [OF below] show ?case by simp
qed

text \<open>
  C5. With fewer than \<open>min_replay_memory_size\<close> transitions in the buffer,
  \<open>training_step\<close> returns the agent as it was: nothing is sampled, \<^verbatim>\<open>train_step\<close> is not
  called, and the weights of both networks stay. So does any number of such calls in a
  row; and when transitions are pushed, each followed by a training step, as long as the
  buffer stays below the minimum the weights and the list of calls stay as well.
\<close>

theorem training_step_below_minimum:
  assumes "int (length (replay_memory a)) < min_replay_memory_size a"
  shows "training_step X discount a = Inr a
    \<and> ((\<lambda>r. case r of Inl e \<Rightarrow> Inl e | Inr b \<Rightarrow> training_step X discount b) ^^ n) (Inr a)
        = Inr a
    \<and> (int (length (replay_memory a)) + int (length ts) < min_replay_memory_size a \<longrightarrow>
        (\<exists>a'. fold (\<lambda>t r. case r of Inl e \<Rightarrow> Inl e
                  | Inr b \<Rightarrow> training_step X discount (update_replay_memory b t)) ts (Inr a)
                = Inr a'
             \<and> model a' = model a \<and> target_model a' = target_model a \<and> calls a' = calls a))"
proof (intro conjI impI)
  show one: "training_step X discount a = Inr a"
    using assms by (rule training_step_skip)
  show "((\<lambda>r. case r of Inl e \<Rightarrow> Inl e | Inr b \<Rightarrow> training_step X discount b) ^^ n) (Inr a)
        = Inr a"
    by (induction n) (simp_all add: one)
next
  assume room: "int (length (replay_memory a)) + int (length ts) < min_replay_memory_size a"
  have keep: "model (fold (\<lambda>t b. update_replay_memory b t) ts b) = model b
      \<and> target_model (fold (\<lambda>t b. update_replay_memory b t) ts b) = target_model b
      \<and> calls (fold (\<lambda>t b. update_replay_memory b t) ts b) = calls b" for b :: "('a, 'b) agent"
    by (induction ts arbitrary: b) (simp_all add: update_replay_memory_def)
  from push_then_train_skip [OF room] keep [of a]
  show "\<exists>a'. fold (\<lambda>t r. case r of Inl e \<Rightarrow> Inl e
                  | Inr b \<Rightarrow> training_step X discount (update_replay_memory b t)) ts (Inr a)
                = Inr a'
             \<and> model a' = model a \<and> target_model a' = target_model a \<and> calls a' = calls a"
    by simp
qed

theorem training_step_below_minimum_witness:
  "int (length (replay_memory toy_agent)) < min_replay_memory_size toy_agent
   \<and> training_step toy (1 / 2) toy_agent = Inr toy_agent
   \<and> ((\<lambda>r. case r of Inl e \<Rightarrow> Inl e | Inr b \<Rightarrow> training_step toy (1 / 2) b) ^^ 3)
        (Inr toy_agent) = Inr toy_agent
   \<and> int (length (replay_memory toy_agent)) + int (length (map labelled [1, 2, 3]))
        < min_replay_memory_size toy_agent
   \<and> (\<exists>a'. fold (\<lambda>t r. case r of Inl e \<Rightarrow> Inl e
                  | Inr b \<Rightarrow> training_step toy (1 / 2) (update_replay_memory b t))
                (map labelled [1, 2, 3]) (Inr toy_agent) = Inr a'
         \<and> model a' = 1 \<and> target_model a' = 1 \<and> calls a' = [EnvReset, SetWeights 1])"
proof -
  have below: "int (length (replay_memory toy_agent)) < min_replay_memory_size toy_agent"
    and room: "int (length (replay_memory toy_agent)) + int (length (map labelled [1, 2, 3]))
        < min_replay_memory_size toy_agent"
    and fields: "model toy_agent = 1" "target_model toy_agent = 1"
      "calls toy_agent = [EnvReset, SetWeights 1]"
    by (simp_all add: toy_agent_def)
  from training_step_below_minimum [OF below, of toy "1 / 2" 3 "map labelled [1, 2, 3]"]
    below room fields
  show ?thesis by simp
qed

section \<open>Sampling\<close>

text \<open>The fields of the small world, and what evaluates a run in it.\<close>

lemma toy_fields:
  "env_reset toy = (\<lambda>e. 0)" "env_state toy = (\<lambda>e. [real e, 0])"
  "env_step toy = (\<lambda>e a. (([real (e + 1), 0], - 1, 2 \<le> e + 1), e + 1))"
  "env_action_n toy = 3" "goal_position toy = 1.5"
  "predict toy = (\<lambda>w s. [w, 2 * w, 3 * w])" "train_step toy = (\<lambda>w xs ys. w + 1)"
  "np_random toy = (\<lambda>n. 1)" "np_randint toy = (\<lambda>n k. 0)"
  "random_choice toy = (\<lambda>n xs k. take k xs)"
  by (simp_all add: toy_def)

lemma py_range_7: "py_range 7 = [0, 1, 2, 3, 4, 5, 6]" "py_range 1 = [0]"
  by (simp_all add: py_range_def upt_rec)


lemmas run_defs = train_agent_def episode_body_def epsilon_min_def epsilon_decay_value_def
  while_not_done.simps loop_body_def choose_action_def update_replay_memory_def
  deque_append_def training_step_def random_sample_def count_terminal_def update_target_def
  produce_action_def get_q_values_def np_argmax_def np_max_def py_getitem_def py_setitem_def
  py_index_def toy_fields Let_def





section \<open>The loops of train\_agent\<close>

lemma choose_action_Inr:
  "choose_action X epsilon a state = Inr (action, a1) \<Longrightarrow> \<exists>n. a1 = a\<lparr>rng := n\<rparr>"
  by (auto simp: choose_action_def Let_def split: if_splits sum.splits)

lemma count_terminal_Inr:
  "count_terminal X new_state dn wins a = Inr (wins', a') \<Longrightarrow>
   a' = a\<lparr>target_update_counter := target_update_counter a + (if dn then 1 else 0)\<rparr>"
  by (auto simp: count_terminal_def split: if_splits sum.splits)

lemma update_target_Inr:
  "update_target a = Inr a' \<Longrightarrow>
   update_target_every a \<noteq> 0 \<and>
   a' = (if target_update_counter a mod update_target_every a = 0 \<and> 0 < target_update_counter a
         then a\<lparr>target_model := model a, target_update_counter := 0,
                calls := calls a @ [SetWeights (model a)]\<rparr>
         else a)"
  by (auto simp: update_target_def split: if_splits)

lemma training_step_frame:
  assumes "training_step X discount a = Inr a'"
  shows "env a' = env a" "target_model a' = target_model a"
    "replay_memory a' = replay_memory a" "replay_maxlen a' = replay_maxlen a"
    "min_replay_memory_size a' = min_replay_memory_size a" "batch_size a' = batch_size a"
    "target_update_counter a' = target_update_counter a"
    "update_target_every a' = update_target_every a"
    "marks (calls a') = marks (calls a)" "epsilons (calls a') = epsilons (calls a)"
  using training_step_Inr [OF assms] by auto

text \<open>The steps of the body of the loop, one after the other.\<close>

lemma loop_body_Inr:
  assumes "loop_body X discount f = Inr f'"
  obtains action n new_state reward dn e' a4 wins where
    "choose_action X (current_epsilon f) (self f) (env_state X (env (self f)))
       = Inr (action, (self f)\<lparr>rng := n\<rparr>)"
    "env_step X (env (self f)) action = ((new_state, reward, dn), e')"
    "training_step X discount
       (update_replay_memory
          ((self f)\<lparr>rng := n, env := e',
              calls := calls (self f) @ [EnvStep (env_state X (env (self f))) action]\<rparr>)
          (env_state X (env (self f)), action, reward, new_state, dn)) = Inr a4"
    "update_target (a4\<lparr>target_update_counter :=
         target_update_counter a4 + (if dn then 1 else 0)\<rparr>) = Inr (self f')"
    "f' = f\<lparr>self := self f', episodes_wins := wins,
           episode_reward := episode_reward f + reward, done_flag := dn\<rparr>"
proof -
  from assms obtain action a1 where
    ch: "choose_action X (current_epsilon f) (self f) (env_state X (env (self f))) = Inr (action, a1)"
    by (auto simp: loop_body_def Let_def split: sum.splits)
  from choose_action_Inr [OF ch] obtain n where a1: "a1 = (self f)\<lparr>rng := n\<rparr>" ..
  obtain new_state reward dn e' where
    st: "env_step X (env (self f)) action = ((new_state, reward, dn), e')"
    by (metis prod.exhaust)
  from assms ch a1 st obtain a4 wins a5 a6 where
    tr: "training_step X discount
       (update_replay_memory
          ((self f)\<lparr>rng := n, env := e',
              calls := calls (self f) @ [EnvStep (env_state X (env (self f))) action]\<rparr>)
          (env_state X (env (self f)), action, reward, new_state, dn)) = Inr a4" and
    ct: "count_terminal X new_state dn (episodes_wins f) a4 = Inr (wins, a5)" and
    ut: "update_target a5 = Inr a6" and
    f': "f' = f\<lparr>self := a6, episodes_wins := wins,
           episode_reward := episode_reward f + reward, done_flag := dn\<rparr>"
    by (auto simp: loop_body_def Let_def split: sum.splits)
  from count_terminal_Inr [OF ct] ut f'
  have "update_target (a4\<lparr>target_update_counter :=
         target_update_counter a4 + (if dn then 1 else 0)\<rparr>) = Inr (self f')"
    by simp
  with ch a1 st tr f' show ?thesis
    by (intro that [of action n new_state reward dn e' a4 wins]) simp_all
qed

text \<open>A property kept by every pass through the body holds when the loop ends.\<close>

lemma while_not_done_rule_aux:
  assumes "while_not_done X discount f = Some r"
  shows "\<forall>g g'. I g \<longrightarrow> \<not> done_flag g \<longrightarrow> loop_body X discount g = Inr g' \<longrightarrow> I g' \<Longrightarrow>
   I f \<Longrightarrow> r = Inr f' \<Longrightarrow> I f' \<and> done_flag f'"
proof (induction X discount f r rule: while_not_done.raw_induct)
  case (1 w X discount f r)
  note step = \<open>\<forall>g g'. I g \<longrightarrow> \<not> done_flag g \<longrightarrow> loop_body X discount g = Inr g' \<longrightarrow> I g'\<close>
  note start = \<open>I f\<close> and result = \<open>r = Inr f'\<close>
  show ?case
  proof (cases "done_flag f")
    case True
    with "1.hyps" start result show ?thesis by simp
  next
    case False
    with "1.hyps" result obtain g where g: "loop_body X discount f = Inr g"
      and w: "w X discount g = Some r"
      by (auto split: sum.splits)
    from step start False g have "I g" by blast
    from "1.IH" [OF w step this result] show ?thesis .
  qed
qed (rule assms)

lemma while_not_done_rule:
  assumes "while_not_done X discount f = Some (Inr f')"
      and "I f"
      and "\<And>g g'. I g \<Longrightarrow> \<not> done_flag g \<Longrightarrow> loop_body X discount g = Inr g' \<Longrightarrow> I g'"
  shows "I f' \<and> done_flag f'"
proof -
  from assms(3) have "\<forall>g g'. I g \<longrightarrow> \<not> done_flag g \<longrightarrow> loop_body X discount g = Inr g' \<longrightarrow> I g'"
    by blast
  from while_not_done_rule_aux [where I = I, OF assms(1) this assms(2) refl] show ?thesis .
qed


lemma update_replay_memory_fields [simp]:
  "env (update_replay_memory a t) = env a" "model (update_replay_memory a t) = model a"
  "target_model (update_replay_memory a t) = target_model a"
  "batch_size (update_replay_memory a t) = batch_size a"
  "target_update_counter (update_replay_memory a t) = target_update_counter a"
  "update_target_every (update_replay_memory a t) = update_target_every a"
  "rng (update_replay_memory a t) = rng a" "calls (update_replay_memory a t) = calls a"
  by (simp_all add: update_replay_memory_def)

text \<open>What one pass through the body does to the counter and the target network.\<close>

lemma loop_body_sync:
  assumes "loop_body X discount f = Inr f'"
  defines "c' \<equiv> target_update_counter (self f) + (if done_flag f' then 1 else 0)"
  defines "due \<equiv> c' mod update_target_every (self f) = 0 \<and> 0 < c'"
  shows "update_target_every (self f') = update_target_every (self f)"
    "update_target_every (self f) \<noteq> 0"
    "target_update_counter (self f') = (if due then 0 else c')"
    "marks (calls (self f')) = marks (calls (self f)) @ (if due then [Sync] else [])"
    "target_model (self f') = (if due then model (self f') else target_model (self f))"
proof -
  from assms(1) obtain action n new_state reward dn e' a4 wins where
    tr: "training_step X discount
       (update_replay_memory
          ((self f)\<lparr>rng := n, env := e',
              calls := calls (self f) @ [EnvStep (env_state X (env (self f))) action]\<rparr>)
          (env_state X (env (self f)), action, reward, new_state, dn)) = Inr a4" and
    ut: "update_target (a4\<lparr>target_update_counter :=
         target_update_counter a4 + (if dn then 1 else 0)\<rparr>) = Inr (self f')" and
    f': "f' = f\<lparr>self := self f', episodes_wins := wins,
           episode_reward := episode_reward f + reward, done_flag := dn\<rparr>"
    by (rule loop_body_Inr)
  from f' have dn: "done_flag f' = dn"
    by (metis frame.select_convs(7) frame.surjective frame.update_convs(7))
  note fr = training_step_frame [OF tr]
  from update_target_Inr [OF ut] fr dn
  show "update_target_every (self f') = update_target_every (self f)"
    "update_target_every (self f) \<noteq> 0"
    "target_update_counter (self f') = (if due then 0 else c')"
    "marks (calls (self f')) = marks (calls (self f)) @ (if due then [Sync] else [])"
    "target_model (self f') = (if due then model (self f') else target_model (self f))"
    by (auto simp: c'_def due_def split: if_splits)
qed

lemma loop_body_keeps:
  assumes "loop_body X discount f = Inr f'"
  shows "current_epsilon f' = current_epsilon f"
    "episodes_counter f' = episodes_counter f" "episodes_rewards f' = episodes_rewards f"
    "epsilons (calls (self f')) = epsilons (calls (self f))"
    "replay_maxlen (self f') = replay_maxlen (self f)"
    "min_replay_memory_size (self f') = min_replay_memory_size (self f)"
    "batch_size (self f') = batch_size (self f)"
proof -
  from assms obtain action n new_state reward dn e' a4 wins where
    tr: "training_step X discount
       (update_replay_memory
          ((self f)\<lparr>rng := n, env := e',
              calls := calls (self f) @ [EnvStep (env_state X (env (self f))) action]\<rparr>)
          (env_state X (env (self f)), action, reward, new_state, dn)) = Inr a4" and
    ut: "update_target (a4\<lparr>target_update_counter :=
         target_update_counter a4 + (if dn then 1 else 0)\<rparr>) = Inr (self f')" and
    f': "f' = f\<lparr>self := self f', episodes_wins := wins,
           episode_reward := episode_reward f + reward, done_flag := dn\<rparr>"
    by (rule loop_body_Inr)
  from f' have "current_epsilon f' = current_epsilon (f\<lparr>self := self f', episodes_wins := wins,
           episode_reward := episode_reward f + reward, done_flag := dn\<rparr>)"
     "episodes_counter f' = episodes_counter (f\<lparr>self := self f', episodes_wins := wins,
           episode_reward := episode_reward f + reward, done_flag := dn\<rparr>)"
     "episodes_rewards f' = episodes_rewards (f\<lparr>self := self f', episodes_wins := wins,
           episode_reward := episode_reward f + reward, done_flag := dn\<rparr>)"
    by simp_all
  then show "current_epsilon f' = current_epsilon f"
    "episodes_counter f' = episodes_counter f" "episodes_rewards f' = episodes_rewards f"
    by simp_all
  note fr = training_step_frame [OF tr]
  from update_target_Inr [OF ut] fr
  show "epsilons (calls (self f')) = epsilons (calls (self f))"
    "replay_maxlen (self f') = replay_maxlen (self f)"
    "min_replay_memory_size (self f') = min_replay_memory_size (self f)"
    "batch_size (self f') = batch_size (self f)"
    by (auto split: if_splits)
qed

section \<open>The exploration schedule\<close>

lemma while_not_done_epsilon:
  assumes "while_not_done X discount f = Some (Inr f')"
  shows "current_epsilon f' = current_epsilon f
    \<and> epsilons (calls (self f')) = epsilons (calls (self f))"
proof -
  let ?I = "\<lambda>g. current_epsilon g = current_epsilon f
    \<and> epsilons (calls (self g)) = epsilons (calls (self f))"
  have "?I f' \<and> done_flag f'"
    by (rule while_not_done_rule [OF assms, where I = ?I]) (simp_all add: loop_body_keeps)
  then show ?thesis by simp
qed

lemma episode_body_Inr:
  assumes "episode_body X discount episodes' show_every cycle episode f = Some (Inr f')"
  obtains f2 where
    "while_not_done X discount
       (f\<lparr>self := (self f)\<lparr>env := env_reset X (env (self f)),
              calls := calls (self f) @ [EnvReset, Epsilon (max epsilon_min (current_epsilon f))]\<rparr>,
           done_flag := False, episode_reward := 0,
           current_epsilon := max epsilon_min (current_epsilon f)\<rparr>) = Some (Inr f2)"
    "f' = f2\<lparr>current_epsilon := current_epsilon f2 - epsilon_decay_value,
             episodes_rewards := episodes_rewards f2 @ [episode_reward f2],
             episodes_counter := episodes_counter f2 + 1\<rparr>"
  using assms
  by (auto simp: episode_body_def Let_def split: if_splits option.splits sum.splits)

lemma episode_body_epsilon:
  assumes "episode_body X discount episodes' show_every cycle episode f = Some (Inr f')"
  shows "epsilons (calls (self f'))
      = epsilons (calls (self f)) @ [max epsilon_min (current_epsilon f)]"
    "current_epsilon f' = max epsilon_min (current_epsilon f) - epsilon_decay_value"
proof -
  from assms obtain f2 where
    w: "while_not_done X discount
       (f\<lparr>self := (self f)\<lparr>env := env_reset X (env (self f)),
              calls := calls (self f) @ [EnvReset, Epsilon (max epsilon_min (current_epsilon f))]\<rparr>,
           done_flag := False, episode_reward := 0,
           current_epsilon := max epsilon_min (current_epsilon f)\<rparr>) = Some (Inr f2)" and
    f': "f' = f2\<lparr>current_epsilon := current_epsilon f2 - epsilon_decay_value,
             episodes_rewards := episodes_rewards f2 @ [episode_reward f2],
             episodes_counter := episodes_counter f2 + 1\<rparr>"
    by (rule episode_body_Inr)
  from while_not_done_epsilon [OF w] f'
  show "epsilons (calls (self f'))
      = epsilons (calls (self f)) @ [max epsilon_min (current_epsilon f)]"
    "current_epsilon f' = max epsilon_min (current_epsilon f) - epsilon_decay_value"
    by simp_all
qed

lemma episodes_loop_Cons:
  "episodes_loop X discount episodes' show_every cycle (episode # rest) f = Some (Inr f') \<Longrightarrow>
   \<exists>f1. episode_body X discount episodes' show_every cycle episode f = Some (Inr f1)
      \<and> episodes_loop X discount episodes' show_every cycle rest f1 = Some (Inr f')"
  by (auto split: option.splits sum.splits)

lemma episodes_loop_epsilons:
  "episodes_loop X discount episodes' show_every cycle idxs f = Some (Inr f') \<Longrightarrow>
   \<exists>es. epsilons (calls (self f')) = epsilons (calls (self f)) @ es
     \<and> length es = length idxs
     \<and> (idxs \<noteq> [] \<longrightarrow> es ! 0 = max epsilon_min (current_epsilon f))
     \<and> (\<forall>i. Suc i < length es \<longrightarrow> es ! Suc i = max epsilon_min (es ! i - epsilon_decay_value))"
proof (induction idxs arbitrary: f)
  case Nil
  then show ?case by simp
next
  case (Cons episode rest)
  from episodes_loop_Cons [OF Cons.prems] obtain f1 where
    body: "episode_body X discount episodes' show_every cycle episode f = Some (Inr f1)" and
    loop: "episodes_loop X discount episodes' show_every cycle rest f1 = Some (Inr f')"
    by blast
  define e0 where "e0 = max epsilon_min (current_epsilon f)"
  note b = episode_body_epsilon [OF body, folded e0_def]
  from Cons.IH [OF loop] b obtain es where
    es: "epsilons (calls (self f')) = (epsilons (calls (self f)) @ [e0]) @ es"
      "length es = length rest"
      "rest \<noteq> [] \<longrightarrow> es ! 0 = max epsilon_min (e0 - epsilon_decay_value)"
      "\<forall>i. Suc i < length es \<longrightarrow> es ! Suc i = max epsilon_min (es ! i - epsilon_decay_value)"
    by auto
  have "Suc i < length (e0 # es) \<longrightarrow>
      (e0 # es) ! Suc i = max epsilon_min ((e0 # es) ! i - epsilon_decay_value)" for i
    using es(2-4) by (cases i) auto
  with es show ?case
    by (intro exI [of _ "e0 # es"]) (simp add: e0_def)
qed

text \<open>
  C4. Within one cycle, which starts from \<open>epsilon\<close>, the episodes start with the values
  \<open>es\<close>: the first is \<open>max epsilon_min epsilon\<close>, each next one is the greater of
  \<open>epsilon_min\<close> and the one before minus \<open>epsilon_decay_value\<close>, so the values never grow
  and none is below \<open>epsilon_min\<close>. A step of an episode reads the value its episode
  started with: it neither changes \<open>current_epsilon\<close> nor starts an episode.
\<close>

theorem epsilon_schedule:
  assumes "episodes_loop X discount episodes' show_every cycle idxs
             (f\<lparr>current_epsilon := epsilon\<rparr>) = Some (Inr f')"
  shows "(\<exists>es. epsilons (calls (self f')) = epsilons (calls (self f)) @ es
       \<and> length es = length idxs
       \<and> (idxs \<noteq> [] \<longrightarrow> es ! 0 = max epsilon_min epsilon)
       \<and> (\<forall>i. Suc i < length es \<longrightarrow>
             es ! Suc i = max epsilon_min (es ! i - epsilon_decay_value)
             \<and> es ! Suc i \<le> es ! i)
       \<and> (\<forall>e \<in> set es. epsilon_min \<le> e))
     \<and> (loop_body X discount g = Inr g' \<longrightarrow>
          current_epsilon g' = current_epsilon g
          \<and> epsilons (calls (self g')) = epsilons (calls (self g)))"
proof -
  from episodes_loop_epsilons [OF assms] obtain es where
    es: "epsilons (calls (self f')) = epsilons (calls (self f)) @ es"
      "length es = length idxs"
      "idxs \<noteq> [] \<longrightarrow> es ! 0 = max epsilon_min epsilon"
      "\<forall>i. Suc i < length es \<longrightarrow> es ! Suc i = max epsilon_min (es ! i - epsilon_decay_value)"
    by auto
  have floor: "epsilon_min \<le> es ! i" if "i < length es" for i
    using that es(2-4) by (cases i) auto
  then have all: "\<forall>e \<in> set es. epsilon_min \<le> e"
    by (auto simp: in_set_conv_nth)
  have "es ! Suc i \<le> es ! i" if "Suc i < length es" for i
  proof -
    from that have "epsilon_min \<le> es ! i" by (simp add: floor)
    moreover from that es(4) have "es ! Suc i = max epsilon_min (es ! i - epsilon_decay_value)"
      by simp
    ultimately show ?thesis by (simp add: epsilon_decay_value_def)
  qed
  with es all have "\<exists>es. epsilons (calls (self f')) = epsilons (calls (self f)) @ es
       \<and> length es = length idxs
       \<and> (idxs \<noteq> [] \<longrightarrow> es ! 0 = max epsilon_min epsilon)
       \<and> (\<forall>i. Suc i < length es \<longrightarrow>
             es ! Suc i = max epsilon_min (es ! i - epsilon_decay_value)
             \<and> es ! Suc i \<le> es ! i)
       \<and> (\<forall>e \<in> set es. epsilon_min \<le> e)"
    by blast
  then show ?thesis
    by (simp add: loop_body_keeps)
qed

lemma toy_three_episodes:
  "\<exists>F. episodes_loop toy (1 / 2) 3 3 0 [0, 1, 2] (toy_frame\<lparr>current_epsilon := 1\<rparr>) = Some (Inr F)"
  by (simp add: run_defs toy_frame_def toy_agent_def)

lemma toy_first_step:
  "\<exists>G. loop_body toy (1 / 2) toy_frame = Inr G"
  by (simp add: run_defs toy_frame_def toy_agent_def)

theorem epsilon_schedule_witness:
  "\<exists>F G. episodes_loop toy (1 / 2) 3 3 0 [0, 1, 2] (toy_frame\<lparr>current_epsilon := 1\<rparr>)
          = Some (Inr F)
     \<and> loop_body toy (1 / 2) toy_frame = Inr G
     \<and> epsilons (calls (self F)) = [1, 99 / 100, 98 / 100]
     \<and> current_epsilon G = 1 \<and> epsilons (calls (self G)) = []"
proof -
  from toy_three_episodes obtain F where
    F: "episodes_loop toy (1 / 2) 3 3 0 [0, 1, 2] (toy_frame\<lparr>current_epsilon := 1\<rparr>)
          = Some (Inr F)" ..
  from toy_first_step obtain G where G: "loop_body toy (1 / 2) toy_frame = Inr G" ..
  from epsilon_schedule [OF F, where g = toy_frame and g' = G] G obtain es where
    es: "epsilons (calls (self F)) = epsilons (calls (self toy_frame)) @ es"
      "length es = 3" "es ! 0 = max epsilon_min 1"
      "\<forall>i. Suc i < length es \<longrightarrow> es ! Suc i = max epsilon_min (es ! i - epsilon_decay_value)"
    and G': "current_epsilon G = current_epsilon toy_frame"
      "epsilons (calls (self G)) = epsilons (calls (self toy_frame))"
    by auto
  from es(2-4) have "es ! 0 = 1" "es ! 1 = 99 / 100" "es ! 2 = 98 / 100"
    by (simp_all add: epsilon_min_def epsilon_decay_value_def eval_nat_numeral)
  with es(2) have "es = [1, 99 / 100, 98 / 100]"
    by (intro nth_equalityI) (auto simp: less_Suc_eq eval_nat_numeral)
  with es(1) G' F G show ?thesis
    by (auto simp: toy_frame_def toy_agent_def)
qed

section \<open>Copies of the weights into the target network\<close>

lemma counter_due:
  "0 \<le> c \<Longrightarrow> c < u \<Longrightarrow> ((c + 1) mod u = 0 \<and> 0 < c + 1) = (c + 1 = (u::int))"
  by (cases "c + 1 = u") simp_all

text \<open>
  An episode that starts with the counter at \<open>c\<close>, below a positive \<open>update_target_every\<close>,
  ends with the counter one higher, or at zero after a copy of the weights when that
  reaches \<open>update_target_every\<close>.
\<close>

lemma while_not_done_sync:
  assumes run: "while_not_done X discount f = Some (Inr f')"
      and start: "\<not> done_flag f"
      and u: "0 < update_target_every (self f)"
      and c: "0 \<le> target_update_counter (self f)"
             "target_update_counter (self f) < update_target_every (self f)"
  defines "due \<equiv> target_update_counter (self f) + 1 = update_target_every (self f)"
  shows "update_target_every (self f') = update_target_every (self f)"
    "target_update_counter (self f') = (if due then 0 else target_update_counter (self f) + 1)"
    "marks (calls (self f')) = marks (calls (self f)) @ (if due then [Sync] else [])"
proof -
  let ?u = "update_target_every (self f)"
  let ?c = "target_update_counter (self f)"
  let ?I = "\<lambda>g. update_target_every (self g) = ?u
    \<and> (if done_flag g
        then target_update_counter (self g) = (if due then 0 else ?c + 1)
             \<and> marks (calls (self g)) = marks (calls (self f)) @ (if due then [Sync] else [])
        else target_update_counter (self g) = ?c
             \<and> marks (calls (self g)) = marks (calls (self f)))"
  have "?I f' \<and> done_flag f'"
  proof (rule while_not_done_rule [OF run, where I = ?I])
    show "?I f" using start by simp
  next
    fix g g'
    assume I: "?I g" and nd: "\<not> done_flag g" and body: "loop_body X discount g = Inr g'"
    note s = loop_body_sync [OF body]
    from I nd have g: "update_target_every (self g) = ?u" "target_update_counter (self g) = ?c"
      "marks (calls (self g)) = marks (calls (self f))"
      by simp_all
    show "?I g'"
    proof (cases "done_flag g'")
      case False
      from c u have "\<not> (?c mod ?u = 0 \<and> 0 < ?c)" by simp
      with s False g show ?thesis by simp
    next
      case True
      from c have "((?c + 1) mod ?u = 0 \<and> 0 < ?c + 1) = due"
        unfolding due_def by (rule counter_due)
      with s True g show ?thesis by simp
    qed
  qed
  then show "update_target_every (self f') = update_target_every (self f)"
    "target_update_counter (self f') = (if due then 0 else target_update_counter (self f) + 1)"
    "marks (calls (self f')) = marks (calls (self f)) @ (if due then [Sync] else [])"
    by simp_all
qed


lemma episode_body_sync:
  assumes body: "episode_body X discount episodes' show_every cycle episode f = Some (Inr f')"
      and u: "0 < update_target_every (self f)"
      and c: "0 \<le> target_update_counter (self f)"
             "target_update_counter (self f) < update_target_every (self f)"
  defines "due \<equiv> target_update_counter (self f) + 1 = update_target_every (self f)"
  shows "update_target_every (self f') = update_target_every (self f)"
    "target_update_counter (self f') = (if due then 0 else target_update_counter (self f) + 1)"
    "marks (calls (self f'))
       = marks (calls (self f)) @ EpisodeStart # (if due then [Sync] else [])"
proof -
  let ?f1 = "f\<lparr>self := (self f)\<lparr>env := env_reset X (env (self f)),
              calls := calls (self f) @ [EnvReset, Epsilon (max epsilon_min (current_epsilon f))]\<rparr>,
           done_flag := False, episode_reward := 0,
           current_epsilon := max epsilon_min (current_epsilon f)\<rparr>"
  from body obtain f2 where
    w: "while_not_done X discount ?f1 = Some (Inr f2)" and
    f': "f' = f2\<lparr>current_epsilon := current_epsilon f2 - epsilon_decay_value,
             episodes_rewards := episodes_rewards f2 @ [episode_reward f2],
             episodes_counter := episodes_counter f2 + 1\<rparr>"
    by (rule episode_body_Inr)
  have "\<not> done_flag ?f1" "0 < update_target_every (self ?f1)"
    "0 \<le> target_update_counter (self ?f1)"
    "target_update_counter (self ?f1) < update_target_every (self ?f1)"
    using u c by simp_all
  from while_not_done_sync [OF w this] f'
  show "update_target_every (self f') = update_target_every (self f)"
    "target_update_counter (self f') = (if due then 0 else target_update_counter (self f) + 1)"
    "marks (calls (self f'))
       = marks (calls (self f)) @ EpisodeStart # (if due then [Sync] else [])"
    by (simp_all add: due_def)
qed

text \<open>The same for a copy every 3 episodes.\<close>

lemma episode_body_sync_3:
  assumes body: "episode_body X discount episodes' show_every cycle episode f = Some (Inr f')"
      and u: "update_target_every (self f) = 3"
      and c: "target_update_counter (self f) = c" "c = 0 \<or> c = 1 \<or> c = 2"
  shows "update_target_every (self f') = 3"
    "target_update_counter (self f') = (if c = 2 then 0 else c + 1)"
    "marks (calls (self f'))
       = marks (calls (self f)) @ EpisodeStart # (if c = 2 then [Sync] else [])"
proof -
  from u c have "0 < update_target_every (self f)" "0 \<le> target_update_counter (self f)"
    "target_update_counter (self f) < update_target_every (self f)"
    by auto
  from episode_body_sync [OF body this] u c
  show "update_target_every (self f') = 3"
    "target_update_counter (self f') = (if c = 2 then 0 else c + 1)"
    "marks (calls (self f'))
       = marks (calls (self f)) @ EpisodeStart # (if c = 2 then [Sync] else [])"
    by auto
qed

lemma seven_episodes_sync:
  assumes run: "episodes_loop X discount episodes' show_every cycle [i1, i2, i3, i4, i5, i6, i7] f
                  = Some (Inr f')"
      and u: "update_target_every (self f) = 3"
      and c: "target_update_counter (self f) = 0"
  shows "marks (calls (self f')) = marks (calls (self f)) @
           [EpisodeStart, EpisodeStart, EpisodeStart, Sync,
            EpisodeStart, EpisodeStart, EpisodeStart, Sync, EpisodeStart]"
proof -
  from episodes_loop_Cons [OF run] obtain f1 where
    b1: "episode_body X discount episodes' show_every cycle i1 f = Some (Inr f1)" and
    r1: "episodes_loop X discount episodes' show_every cycle [i2, i3, i4, i5, i6, i7] f1 = Some (Inr f')"
    by blast
  note s1 = episode_body_sync_3 [OF b1 u c, simplified]
  from episodes_loop_Cons [OF r1] obtain f2 where
    b2: "episode_body X discount episodes' show_every cycle i2 f1 = Some (Inr f2)" and
    r2: "episodes_loop X discount episodes' show_every cycle [i3, i4, i5, i6, i7] f2 = Some (Inr f')"
    by blast
  note s2 = episode_body_sync_3 [OF b2 s1(1) s1(2), simplified]
  from episodes_loop_Cons [OF r2] obtain f3 where
    b3: "episode_body X discount episodes' show_every cycle i3 f2 = Some (Inr f3)" and
    r3: "episodes_loop X discount episodes' show_every cycle [i4, i5, i6, i7] f3 = Some (Inr f')"
    by blast
  note s3 = episode_body_sync_3 [OF b3 s2(1) s2(2), simplified]
  from episodes_loop_Cons [OF r3] obtain f4 where
    b4: "episode_body X discount episodes' show_every cycle i4 f3 = Some (Inr f4)" and
    r4: "episodes_loop X discount episodes' show_every cycle [i5, i6, i7] f4 = Some (Inr f')"
    by blast
  note s4 = episode_body_sync_3 [OF b4 s3(1) s3(2), simplified]
  from episodes_loop_Cons [OF r4] obtain f5 where
    b5: "episode_body X discount episodes' show_every cycle i5 f4 = Some (Inr f5)" and
    r5: "episodes_loop X discount episodes' show_every cycle [i6, i7] f5 = Some (Inr f')"
    by blast
  note s5 = episode_body_sync_3 [OF b5 s4(1) s4(2), simplified]
  from episodes_loop_Cons [OF r5] obtain f6 where
    b6: "episode_body X discount episodes' show_every cycle i6 f5 = Some (Inr f6)" and
    r6: "episodes_loop X discount episodes' show_every cycle [i7] f6 = Some (Inr f')"
    by blast
  note s6 = episode_body_sync_3 [OF b6 s5(1) s5(2), simplified]
  from episodes_loop_Cons [OF r6] obtain f7 where
    b7: "episode_body X discount episodes' show_every cycle i7 f6 = Some (Inr f7)" and
    r7: "episodes_loop X discount episodes' show_every cycle [] f7 = Some (Inr f')"
    by blast
  note s7 = episode_body_sync_3 [OF b7 s6(1) s6(2), simplified]
  from r7 have "f' = f7" by simp
  with s1(3) s2(3) s3(3) s4(3) s5(3) s6(3) s7(3) show ?thesis by simp
qed

text \<open>
  C3. In a step of \<open>train_agent\<close> the counter grows by one exactly when the step is
  terminal. When the counter so reached is a positive multiple of \<open>update_target_every\<close>,
  the target network gets the weights of the main network and the counter returns to
  zero; otherwise the target network keeps its weights and no copy is made. With a copy
  every 3 episodes and a counter that starts at zero, a run of one cycle of 7 episodes
  copies the weights twice: after the third episode and after the sixth, and not after
  the seventh.
\<close>

theorem target_update_cadence:
  "(loop_body X discount f = Inr f' \<longrightarrow>
      (let counted = target_update_counter (self f) + (if done_flag f' then 1 else 0);
           due = (counted mod update_target_every (self f) = 0 \<and> 0 < counted)
       in (due \<longrightarrow> target_model (self f') = model (self f')
                 \<and> target_update_counter (self f') = 0
                 \<and> marks (calls (self f')) = marks (calls (self f)) @ [Sync])
        \<and> (\<not> due \<longrightarrow> target_model (self f') = target_model (self f)
                 \<and> target_update_counter (self f') = counted
                 \<and> marks (calls (self f')) = marks (calls (self f)))))
   \<and> (train_agent X a 7 epsilon show_every discount 1 = Some (Inr f7)
        \<and> update_target_every a = 3 \<and> target_update_counter a = 0 \<longrightarrow>
      marks (calls (self f7)) = marks (calls a) @
        [EpisodeStart, EpisodeStart, EpisodeStart, Sync,
         EpisodeStart, EpisodeStart, EpisodeStart, Sync, EpisodeStart])"
proof (intro conjI impI)
  assume "loop_body X discount f = Inr f'"
  from loop_body_sync [OF this]
  show "let counted = target_update_counter (self f) + (if done_flag f' then 1 else 0);
           due = (counted mod update_target_every (self f) = 0 \<and> 0 < counted)
       in (due \<longrightarrow> target_model (self f') = model (self f')
                 \<and> target_update_counter (self f') = 0
                 \<and> marks (calls (self f')) = marks (calls (self f)) @ [Sync])
        \<and> (\<not> due \<longrightarrow> target_model (self f') = target_model (self f)
                 \<and> target_update_counter (self f') = counted
                 \<and> marks (calls (self f')) = marks (calls (self f)))"
    by (simp add: Let_def)
next
  assume run: "train_agent X a 7 epsilon show_every discount 1 = Some (Inr f7)
        \<and> update_target_every a = 3 \<and> target_update_counter a = 0"
  define f0 :: "('a, 'b) frame" where "f0 = \<lparr>self = a, episodes_counter = 0, episodes_wins = [],
     episodes_rewards = [], current_epsilon = epsilon, episode_reward = 0, done_flag = False\<rparr>"
  from run obtain se where
    "cycles_loop X discount 7 epsilon se [0] f0 = Some (Inr f7)"
    by (auto simp: train_agent_def Let_def py_range_7 f0_def)
  then have "episodes_loop X discount 7 se 0 [0, 1, 2, 3, 4, 5, 6] (f0\<lparr>current_epsilon := epsilon\<rparr>)
      = Some (Inr f7)"
    by (auto simp: py_range_7 split: option.splits sum.splits)
  from seven_episodes_sync [OF this] run
  show "marks (calls (self f7)) = marks (calls a) @
        [EpisodeStart, EpisodeStart, EpisodeStart, Sync,
         EpisodeStart, EpisodeStart, EpisodeStart, Sync, EpisodeStart]"
    by (simp add: f0_def)
qed

lemma toy_seven_episodes:
  "\<exists>F. train_agent toy toy_agent 7 1 None (1 / 2) 1 = Some (Inr F)"
  by (simp add: run_defs py_range_7 toy_agent_def)

lemma toy_step_not_due:
  "\<exists>G. loop_body toy (1 / 2) toy_frame = Inr G \<and> \<not> done_flag G"
  by (simp add: run_defs toy_frame_def toy_agent_def)

lemma toy_step_due:
  "\<exists>G. loop_body toy (1 / 2) toy_frame_due = Inr G \<and> done_flag G"
  by (simp add: run_defs toy_frame_due_def toy_frame_def toy_agent_def)

theorem target_update_cadence_witness:
  "\<exists>F G H. train_agent toy toy_agent 7 1 None (1 / 2) 1 = Some (Inr F)
      \<and> update_target_every toy_agent = 3 \<and> target_update_counter toy_agent = 0
      \<and> marks (calls (self F)) =
          [Sync, EpisodeStart, EpisodeStart, EpisodeStart, Sync,
           EpisodeStart, EpisodeStart, EpisodeStart, Sync, EpisodeStart]
      \<and> loop_body toy (1 / 2) toy_frame = Inr G \<and> \<not> done_flag G
      \<and> target_model (self G) = 1 \<and> target_update_counter (self G) = 0
      \<and> marks (calls (self G)) = [Sync]
      \<and> loop_body toy (1 / 2) toy_frame_due = Inr H \<and> done_flag H
      \<and> target_model (self H) = model (self H) \<and> target_update_counter (self H) = 0
      \<and> marks (calls (self H)) = [Sync, Sync]"
proof -
  from toy_seven_episodes obtain F where
    F: "train_agent toy toy_agent 7 1 None (1 / 2) 1 = Some (Inr F)" ..
  from toy_step_not_due obtain G where
    G: "loop_body toy (1 / 2) toy_frame = Inr G" "\<not> done_flag G" by blast
  from toy_step_due obtain H where
    H: "loop_body toy (1 / 2) toy_frame_due = Inr H" "done_flag H" by blast
  have a: "update_target_every toy_agent = 3" "target_update_counter toy_agent = 0"
    "marks (calls toy_agent) = [Sync]"
    "self toy_frame = toy_agent" "target_model toy_agent = 1"
    "update_target_every (self toy_frame_due) = 3"
    "target_update_counter (self toy_frame_due) = 2"
    "marks (calls (self toy_frame_due)) = [Sync]"
    by (simp_all add: toy_agent_def toy_frame_def toy_frame_due_def)
  note run = target_update_cadence [of toy "1 / 2" toy_frame G toy_agent 1 None F]
  note due = target_update_cadence [of toy "1 / 2" toy_frame_due H toy_agent 1 None F]
  from run due F G H a show ?thesis
    by (auto simp: Let_def)
qed

section \<open>The terminal flag\<close>

lemma update_target_replay_memory:
  "update_target a = Inr a' \<Longrightarrow> replay_memory a' = replay_memory a"
  by (auto simp: update_target_def split: if_splits)

lemma step_Inr:
  assumes "step g action = (Inr (observed, reward, finished), g')"
  shows "finished = (player g' = goal g' \<or> game_end g' \<le> steps_played g')"
    "steps_played g' = steps_played g + 1" "observed = (player g', goal g')"
    "goal g' = goal g" "game_end g' = game_end g"
    "reward = (if player g' = goal g' then goal_reward g else move_reward g)"
proof -
  from assms obtain g1 where
    e: "execute_player_action g action = (None, g1)"
    by (auto simp: step_def split: prod.splits option.splits)
  then have g1: "goal g1 = goal g" "game_end g1 = game_end g" "steps_played g1 = steps_played g"
    "goal_reward g1 = goal_reward g" "move_reward g1 = move_reward g"
    by (auto simp: execute_player_action_def Let_def split: sum.splits option.splits if_splits)
  from assms e have "g' = g1\<lparr>steps_played := steps_played g1 + 1\<rparr>"
    "observed = (player g1, goal g1)"
    "finished = (player g1 = goal g1 \<or> game_end g1 \<le> steps_played g1 + 1)"
    "reward = (if player g1 = goal g1 then goal_reward g1 else move_reward g1)"
    by (auto simp: step_def get_state_def Let_def split: if_splits)
  with g1 show "finished = (player g' = goal g' \<or> game_end g' \<le> steps_played g')"
    "steps_played g' = steps_played g + 1" "observed = (player g', goal g')"
    "goal g' = goal g" "game_end g' = game_end g"
    "reward = (if player g' = goal g' then goal_reward g else move_reward g)"
    by simp_all
qed

text \<open>
  C7. A step of \<open>train_agent\<close> pushes the transition made of the state before the step,
  the chosen action and what \<^verbatim>\<open>env.step\<close> returned for it, the flag \<^verbatim>\<open>done\<close> included,
  and that flag is also what ends the episode. \<open>MoveToGoal.step\<close> returns \<^verbatim>\<open>done\<close>
  exactly when the player stands on the goal after the move or \<open>steps_played\<close>, counted
  with this step, has reached \<open>game_end\<close>. The target computed for a stored transition
  adds the discounted future value exactly when the stored flag is false.
\<close>

theorem done_flag_from_environment:
  "(loop_body X discount f = Inr f' \<longrightarrow>
      (\<exists>action n new_state reward flag e'.
         choose_action X (current_epsilon f) (self f) (env_state X (env (self f)))
           = Inr (action, (self f)\<lparr>rng := n\<rparr>)
         \<and> env_step X (env (self f)) action = ((new_state, reward, flag), e')
         \<and> done_flag f' = flag
         \<and> replay_memory (self f')
             = deque_append (replay_maxlen (self f)) (replay_memory (self f))
                 (env_state X (env (self f)), action, reward, new_state, flag)))
   \<and> (step g move = (Inr (observed, gain, finished), g') \<longrightarrow>
        finished = (player g' = goal g' \<or> game_end g' \<le> steps_played g')
        \<and> steps_played g' = steps_played g + 1
        \<and> observed = (player g', goal g'))
   \<and> (minibatch_loop discount [((s, act, r, s', stored), cur, fut)] [] [] = Inr (xs, ys) \<longrightarrow>
        (\<exists>k. py_index (length cur) act = Some k
           \<and> ys = [cur[k := (if stored then r else r + discount * Max (set fut))]]))"
proof -
  have first: "\<exists>action n new_state reward flag e'.
         choose_action X (current_epsilon f) (self f) (env_state X (env (self f)))
           = Inr (action, (self f)\<lparr>rng := n\<rparr>)
         \<and> env_step X (env (self f)) action = ((new_state, reward, flag), e')
         \<and> done_flag f' = flag
         \<and> replay_memory (self f')
             = deque_append (replay_maxlen (self f)) (replay_memory (self f))
                 (env_state X (env (self f)), action, reward, new_state, flag)"
    if "loop_body X discount f = Inr f'"
  proof -
    from that obtain action n new_state reward dn e' a4 wins where
      ch: "choose_action X (current_epsilon f) (self f) (env_state X (env (self f)))
         = Inr (action, (self f)\<lparr>rng := n\<rparr>)" and
      st: "env_step X (env (self f)) action = ((new_state, reward, dn), e')" and
      tr: "training_step X discount
         (update_replay_memory
            ((self f)\<lparr>rng := n, env := e',
                calls := calls (self f) @ [EnvStep (env_state X (env (self f))) action]\<rparr>)
            (env_state X (env (self f)), action, reward, new_state, dn)) = Inr a4" and
      ut: "update_target (a4\<lparr>target_update_counter :=
           target_update_counter a4 + (if dn then 1 else 0)\<rparr>) = Inr (self f')" and
      f': "f' = f\<lparr>self := self f', episodes_wins := wins,
             episode_reward := episode_reward f + reward, done_flag := dn\<rparr>"
      by (rule loop_body_Inr)
    from f' have dn: "done_flag f' = dn"
      by (metis frame.select_convs(7) frame.surjective frame.update_convs(7))
    from update_target_replay_memory [OF ut] training_step_frame(3) [OF tr]
    have "replay_memory (self f')
        = deque_append (replay_maxlen (self f)) (replay_memory (self f))
            (env_state X (env (self f)), action, reward, new_state, dn)"
      by (simp add: update_replay_memory_def)
    with ch st dn show ?thesis by blast
  qed
  have second: "finished = (player g' = goal g' \<or> game_end g' \<le> steps_played g')
        \<and> steps_played g' = steps_played g + 1
        \<and> observed = (player g', goal g')"
    if "step g move = (Inr (observed, gain, finished), g')"
    using step_Inr(1-3) [OF that] by simp
  have third: "\<exists>k. py_index (length cur) act = Some k
           \<and> ys = [cur[k := (if stored then r else r + discount * Max (set fut))]]"
    if "minibatch_loop discount [((s, act, r, s', stored), cur, fut)] [] [] = Inr (xs, ys)"
    using minibatch_loop_Inr [OF that] by (auto simp: list_all2_Cons1)
  from first second third show ?thesis by blast
qed

lemma toy_first_step_pushed:
  "\<exists>G. loop_body toy (1 / 2) toy_frame = Inr G \<and> \<not> done_flag G
     \<and> replay_memory (self G) = [([0, 0], 0, - 1, [1, 0], False)]"
  by (simp add: run_defs toy_frame_def toy_agent_def)

lemma game_steps:
  "step game_near 1 = (Inr ((Some (2, 1), Some (2, 1)), 1, True),
      game_near\<lparr>player := Some (2, 1), steps_played := 1\<rparr>)"
  "step game_near 3 = (Inr ((Some (0, 1), Some (2, 1)), - 1, False),
      game_near\<lparr>player := Some (0, 1), steps_played := 1\<rparr>)"
  "step game_last 0 = (Inr ((Some (0, 1), Some (2, 2)), - 1, True),
      game_last\<lparr>player := Some (0, 1), steps_played := 200\<rparr>)"
  by (simp_all add: step_def execute_player_action_def py_getitem_def py_index_def actions_def
      generate_board_def get_state_def game_near_def game_last_def)

lemma one_row:
  "minibatch_loop (1 / 2) [(([0, 0], 0, - 1, [1, 0], False), [1, 2, 3], [2, 4, 6])] [] []
     = Inr ([[0, 0]], [[2, 2, 3]])"
  "minibatch_loop (1 / 2) [(([1, 0], 1, 10, [2, 0], True), [1, 2, 3], [2, 4, 6])] [] []
     = Inr ([[1, 0]], [[1, 10, 3]])"
  by (simp_all add: np_max_def py_setitem_def py_index_def)

theorem done_flag_from_environment_witness:
  "\<exists>G. loop_body toy (1 / 2) toy_frame = Inr G
     \<and> env_step toy (env (self toy_frame)) 0 = (([1, 0], - 1, False), 1)
     \<and> done_flag G = False
     \<and> replay_memory (self G) = [([0, 0], 0, - 1, [1, 0], False)]
     \<and> step game_near 1 = (Inr ((Some (2, 1), Some (2, 1)), 1, True),
          game_near\<lparr>player := Some (2, 1), steps_played := 1\<rparr>)
     \<and> True = (player (game_near\<lparr>player := Some (2, 1), steps_played := 1\<rparr>)
                = goal (game_near\<lparr>player := Some (2, 1), steps_played := 1\<rparr>)
              \<or> game_end (game_near\<lparr>player := Some (2, 1), steps_played := 1\<rparr>)
                  \<le> steps_played (game_near\<lparr>player := Some (2, 1), steps_played := 1\<rparr>))
     \<and> step game_near 3 = (Inr ((Some (0, 1), Some (2, 1)), - 1, False),
          game_near\<lparr>player := Some (0, 1), steps_played := 1\<rparr>)
     \<and> False = (player (game_near\<lparr>player := Some (0, 1), steps_played := 1\<rparr>)
                = goal (game_near\<lparr>player := Some (0, 1), steps_played := 1\<rparr>)
              \<or> game_end (game_near\<lparr>player := Some (0, 1), steps_played := 1\<rparr>)
                  \<le> steps_played (game_near\<lparr>player := Some (0, 1), steps_played := 1\<rparr>))
     \<and> step game_last 0 = (Inr ((Some (0, 1), Some (2, 2)), - 1, True),
          game_last\<lparr>player := Some (0, 1), steps_played := 200\<rparr>)
     \<and> True = (player (game_last\<lparr>player := Some (0, 1), steps_played := 200\<rparr>)
                = goal (game_last\<lparr>player := Some (0, 1), steps_played := 200\<rparr>)
              \<or> game_end (game_last\<lparr>player := Some (0, 1), steps_played := 200\<rparr>)
                  \<le> steps_played (game_last\<lparr>player := Some (0, 1), steps_played := 200\<rparr>))
     \<and> minibatch_loop (1 / 2) [(([0, 0], 0, - 1, [1, 0], False), [1, 2, 3], [2, 4, 6])] [] []
          = Inr ([[0, 0]], [[1, 2, 3][0 := - 1 + 1 / 2 * Max (set [2, 4, 6])]])
     \<and> minibatch_loop (1 / 2) [(([1, 0], 1, 10, [2, 0], True), [1, 2, 3], [2, 4, 6])] [] []
          = Inr ([[1, 0]], [[1, 2, 3][1 := 10]])"
proof -
  from toy_first_step_pushed obtain G where
    G: "loop_body toy (1 / 2) toy_frame = Inr G" "\<not> done_flag G"
      "replay_memory (self G) = [([0, 0], 0, - 1, [1, 0], False)]"
    by blast
  have e: "env_step toy (env (self toy_frame)) 0 = (([1, 0], - 1, False), 1)"
    by (simp add: toy_fields toy_frame_def toy_agent_def)
  note near = done_flag_from_environment [of toy "1 / 2" toy_frame G game_near 1
      "(Some (2, 1), Some (2, 1))" 1 True "game_near\<lparr>player := Some (2, 1), steps_played := 1\<rparr>"
      "[0, 0]" 0 "- 1" "[1, 0]" False "[1, 2, 3]" "[2, 4, 6]" "[[0, 0]]" "[[2, 2, 3]]"]
  note away = done_flag_from_environment [of toy "1 / 2" toy_frame G game_near 3
      "(Some (0, 1), Some (2, 1))" "- 1" False "game_near\<lparr>player := Some (0, 1), steps_played := 1\<rparr>"
      "[1, 0]" 1 10 "[2, 0]" True "[1, 2, 3]" "[2, 4, 6]" "[[1, 0]]" "[[1, 10, 3]]"]
  note last = done_flag_from_environment [of toy "1 / 2" toy_frame G game_last 0
      "(Some (0, 1), Some (2, 2))" "- 1" True "game_last\<lparr>player := Some (0, 1), steps_played := 200\<rparr>"
      "[1, 0]" 1 10 "[2, 0]" True "[1, 2, 3]" "[2, 4, 6]" "[[1, 0]]" "[[1, 10, 3]]"]
  from near away last G e game_steps one_row show ?thesis
    by (intro exI [of _ G]) (simp add: py_index_def)
qed

section \<open>Playing a game\<close>













end
